theory Spec2Isabelle
  imports Complex_Main "HOL-Library.Monad_Syntax"
begin

section \<open>Python strings\<close>

text \<open>
  A Python \<open>str\<close> is modelled as a \<open>string\<close>; a \<open>char\<close> stands for the code point of
  the same number, so the model covers the texts over U+0000 .. U+00FF. The character
  classes below are Python's Unicode classes restricted to that range.
\<close>

definition code_point :: "char \<Rightarrow> nat" where
  "code_point c = of_char c"

text \<open>\<open>str.isspace\<close> on one character; also the class \<open>\s\<close> of \<open>re\<close> on \<open>str\<close> patterns.\<close>

definition isspace :: "char \<Rightarrow> bool" where
  "isspace c = (let n = code_point c in
     (9 \<le> n \<and> n \<le> 13) \<or> (28 \<le> n \<and> n \<le> 32) \<or> n = 133 \<or> n = 160)"

text \<open>\<open>str.isalnum\<close> on one character.\<close>

definition isalnum :: "char \<Rightarrow> bool" where
  "isalnum c = (let n = code_point c in
     (48 \<le> n \<and> n \<le> 57) \<or> (65 \<le> n \<and> n \<le> 90) \<or> (97 \<le> n \<and> n \<le> 122) \<or>
     n = 170 \<or> n = 178 \<or> n = 179 \<or> n = 181 \<or> n = 185 \<or> n = 186 \<or>
     (188 \<le> n \<and> n \<le> 190) \<or> (192 \<le> n \<and> n \<le> 214) \<or> (216 \<le> n \<and> n \<le> 246) \<or>
     (248 \<le> n \<and> n \<le> 255))"

text \<open>\<open>str.lower\<close> on one character; \<open>re.IGNORECASE\<close> compares characters after it.\<close>

definition lower_char :: "char \<Rightarrow> char" where
  "lower_char c = (let n = code_point c in
     if (65 \<le> n \<and> n \<le> 90) \<or> (192 \<le> n \<and> n \<le> 222 \<and> n \<noteq> 215)
     then char_of (n + 32) else c)"

definition lower :: "string \<Rightarrow> string" where
  "lower s = map lower_char s"

fun startswith :: "string \<Rightarrow> string \<Rightarrow> bool" where
  "startswith s [] = True"
| "startswith [] (p # ps) = False"
| "startswith (c # cs) (p # ps) = (c = p \<and> startswith cs ps)"

text \<open>\<open>needle in s\<close> on strings.\<close>

fun contains :: "string \<Rightarrow> string \<Rightarrow> bool" where
  "contains [] needle = (needle = [])"
| "contains (c # cs) needle = (startswith (c # cs) needle \<or> contains cs needle)"

text \<open>\<open>s.strip()\<close>: whitespace removed at both ends.\<close>

definition strip :: "string \<Rightarrow> string" where
  "strip s = rev (dropWhile isspace (rev (dropWhile isspace s)))"

text \<open>
  \<open>s.split(sep)\<close> for a separator string. Python raises \<open>ValueError\<close> on an empty
  separator; the two call sites pass the literals \<open>'\n'\<close> and three backquotes, and the
  model returns the unsplit text for an empty separator.
\<close>

function split :: "string \<Rightarrow> string \<Rightarrow> string list" where
  "split [] sep = [[]]"
| "split (c # cs) sep =
     (if sep \<noteq> [] \<and> startswith (c # cs) sep
      then [] # split (drop (length sep - 1) cs) sep
      else (case split cs sep of
              [] \<Rightarrow> [[c]]
            | w # ws \<Rightarrow> (c # w) # ws))"
  by pat_completeness auto
termination
  by (relation "measure (\<lambda>(s, sep). length s)") auto

text \<open>\<open>str(n)\<close> for a non-negative integer \<open>n\<close>.\<close>

definition digit_char :: "nat \<Rightarrow> char" where
  "digit_char d = char_of (48 + d)"

function str_nat :: "nat \<Rightarrow> string" where
  "str_nat n = (if n < 10 then [digit_char n] else str_nat (n div 10) @ [digit_char (n mod 10)])"
  by pat_completeness auto
termination
  by (relation "measure id") auto

declare str_nat.simps [simp del]

section \<open>The fragment of \<open>re\<close> that the detectors use\<close>

text \<open>
  Every pattern of the source is a sequence of single-character atoms, each taken once or
  under \<open>?\<close>, \<open>*\<close> or \<open>+\<close>, and of the assertions \<open>\b\<close> and \<open>^\<close>. The detectors only test
  whether a match exists, so the matcher decides existence and greediness plays no role.
\<close>

datatype atom =
    Lit char
  | Space
  | NonSpace
  | Word
  | OneOf string
  | NoneOf string

datatype piece =
    Ch atom
  | Opt atom
  | Star atom
  | Plus atom
  | WordBoundary
  | LineStart

type_synonym pattern = "piece list"

definition is_word :: "char \<Rightarrow> bool" where
  "is_word c = (isalnum c \<or> c = CHR ''_'')"

fun atom_matches :: "bool \<Rightarrow> atom \<Rightarrow> char \<Rightarrow> bool" where
  "atom_matches ic (Lit p) c = (if ic then lower_char c = lower_char p else c = p)"
| "atom_matches ic Space c = isspace c"
| "atom_matches ic NonSpace c = (\<not> isspace c)"
| "atom_matches ic Word c = is_word c"
| "atom_matches ic (OneOf ps) c =
     (if ic then lower_char c \<in> set (map lower_char ps) else c \<in> set ps)"
| "atom_matches ic (NoneOf ps) c =
     (if ic then lower_char c \<notin> set (map lower_char ps) else c \<notin> set ps)"

definition word_before :: "char option \<Rightarrow> bool" where
  "word_before prev = (case prev of None \<Rightarrow> False | Some c \<Rightarrow> is_word c)"

definition word_after :: "string \<Rightarrow> bool" where
  "word_after s = (case s of [] \<Rightarrow> False | c # cs \<Rightarrow> is_word c)"

text \<open>
  \<open>match_here ic ps prev s\<close>: the pattern \<open>ps\<close> matches a prefix of \<open>s\<close>, where \<open>prev\<close> is the
  character before \<open>s\<close> in the searched text (\<open>None\<close> at its start) and \<open>ic\<close> is
  \<open>re.IGNORECASE\<close>.
\<close>

fun match_here :: "bool \<Rightarrow> pattern \<Rightarrow> char option \<Rightarrow> string \<Rightarrow> bool" where
  "match_here ic [] prev s = True"
| "match_here ic (Ch a # ps) prev [] = False"
| "match_here ic (Ch a # ps) prev (c # cs) =
     (atom_matches ic a c \<and> match_here ic ps (Some c) cs)"
| "match_here ic (Opt a # ps) prev [] = match_here ic ps prev []"
| "match_here ic (Opt a # ps) prev (c # cs) =
     ((atom_matches ic a c \<and> match_here ic ps (Some c) cs) \<or> match_here ic ps prev (c # cs))"
| "match_here ic (Star a # ps) prev [] = match_here ic ps prev []"
| "match_here ic (Star a # ps) prev (c # cs) =
     ((atom_matches ic a c \<and> match_here ic (Star a # ps) (Some c) cs) \<or>
      match_here ic ps prev (c # cs))"
| "match_here ic (Plus a # ps) prev [] = False"
| "match_here ic (Plus a # ps) prev (c # cs) =
     (atom_matches ic a c \<and> match_here ic (Star a # ps) (Some c) cs)"
| "match_here ic (WordBoundary # ps) prev s =
     (word_before prev \<noteq> word_after s \<and> match_here ic ps prev s)"
| "match_here ic (LineStart # ps) prev s = (prev = None \<and> match_here ic ps prev s)"

text \<open>\<open>re.match(p, s)\<close> is truthy: a match at the start of \<open>s\<close>.\<close>

definition re_match :: "bool \<Rightarrow> pattern \<Rightarrow> string \<Rightarrow> bool" where
  "re_match ic p s = match_here ic p None s"

text \<open>\<open>re.search(p, s)\<close> is truthy: a match at some position of \<open>s\<close>.\<close>

fun search_from :: "bool \<Rightarrow> pattern \<Rightarrow> char option \<Rightarrow> string \<Rightarrow> bool" where
  "search_from ic p prev [] = match_here ic p prev []"
| "search_from ic p prev (c # cs) = (match_here ic p prev (c # cs) \<or> search_from ic p (Some c) cs)"

definition re_search :: "bool \<Rightarrow> pattern \<Rightarrow> string \<Rightarrow> bool" where
  "re_search ic p s = search_from ic p None s"

definition lits :: "string \<Rightarrow> pattern" where
  "lits s = map (\<lambda>c. Ch (Lit c)) s"

section \<open>Exceptions\<close>

text \<open>
  The exception classes that the code raises or catches. \<open>LLMTimeoutError\<close> and
  \<open>LLMInvalidOutputError\<close> are subclasses of \<open>ReviewerError\<close>; the other constructors
  are not. \<open>Timeout\<close> is \<open>requests.Timeout\<close>, and \<open>OtherException\<close> is any further
  subclass of \<open>Exception\<close>. Every constructor carries the text that \<open>str(e)\<close> gives.
\<close>

datatype exn =
    ReviewerError string
  | LLMTimeoutError string
  | LLMInvalidOutputError string
  | ValidationError string
  | JSONDecodeError string
  | TypeError string
  | KeyError string
  | IndexError string
  | Timeout string
  | OtherException string

fun str_exn :: "exn \<Rightarrow> string" where
  "str_exn (ReviewerError m) = m"
| "str_exn (LLMTimeoutError m) = m"
| "str_exn (LLMInvalidOutputError m) = m"
| "str_exn (ValidationError m) = m"
| "str_exn (JSONDecodeError m) = m"
| "str_exn (TypeError m) = m"
| "str_exn (KeyError m) = m"
| "str_exn (IndexError m) = m"
| "str_exn (Timeout m) = m"
| "str_exn (OtherException m) = m"

text \<open>\<open>isinstance(e, ReviewerError)\<close>.\<close>

fun is_ReviewerError :: "exn \<Rightarrow> bool" where
  "is_ReviewerError (ReviewerError m) = True"
| "is_ReviewerError (LLMTimeoutError m) = True"
| "is_ReviewerError (LLMInvalidOutputError m) = True"
| "is_ReviewerError e = False"

section \<open>Data model (\<open>app/models.py\<close>)\<close>

text \<open>
  A Python \<open>float\<close> is modelled as the rational number that its literal denotes; the code
  only stores and compares floats.
\<close>

record Issue =
  type :: string
  severity :: string
  message :: string
  confidence :: rat
  action :: string
  line_number :: "int option"
  file_path :: "string option"

text \<open>
  \<open>Issue(type=.., severity=.., message=.., confidence=.., action=.., line_number=..,
  file_path=..)\<close> on arguments of the declared types: the constraints of the fields are
  checked, and a violation raises \<open>ValidationError\<close>.
\<close>

definition new_Issue ::
  "string \<Rightarrow> string \<Rightarrow> string \<Rightarrow> rat \<Rightarrow> string \<Rightarrow> int option \<Rightarrow> string option \<Rightarrow> exn + Issue" where
  "new_Issue t sev msg conf act lineno fp =
     (if sev \<notin> set [''low'', ''medium'', ''high''] then Inl (ValidationError ''severity'')
      else if \<not> (0 \<le> conf \<and> conf \<le> 1) then Inl (ValidationError ''confidence'')
      else if act \<notin> set [''review'', ''ignore''] then Inl (ValidationError ''action'')
      else Inr \<lparr>type = t, severity = sev, message = msg, confidence = conf, action = act,
                line_number = lineno, file_path = fp\<rparr>)"

record PRDiff =
  pr_number :: int
  title :: string
  description :: string
  author :: string
  files_changed :: "string list"
  diff :: string
  commit_message :: string

record ReviewSummary =
  total_issues :: int
  high_severity :: int
  medium_severity :: int
  low_severity :: int
  review_time_seconds :: rat
  llm_used :: bool
  model_name :: "string option"

record ReviewOutput =
  pr_number :: int
  issues :: "Issue list"
  summary :: ReviewSummary
  metadata :: "string \<rightharpoonup> string option"

section \<open>Rule engine (\<open>app/rules.py\<close>)\<close>

text \<open>The lines that count as changed: \<open>+\<close> or \<open>-\<close> in front, but not \<open>+++\<close> or \<open>---\<close>.\<close>

definition is_changed_line :: "string \<Rightarrow> bool" where
  "is_changed_line line =
     ((startswith line ''+'' \<or> startswith line ''-'') \<and>
      \<not> (startswith line ''+++'' \<or> startswith line ''---''))"

definition lines_changed :: "string \<Rightarrow> nat" where
  "lines_changed d = length (filter is_changed_line (split d ''\<newline>''))"

definition check_pr_size :: "string \<Rightarrow> int \<Rightarrow> exn + Issue option" where
  "check_pr_size d threshold =
     (let n = lines_changed d in
      if int n > threshold
      then (case new_Issue ''pr_size'' ''medium''
                   (''PR has '' @ str_nat n @ '' lines changed. Consider splitting for easier review.'')
                   1 ''review'' None None of
              Inl e \<Rightarrow> Inl e
            | Inr i \<Rightarrow> Inr (Some i))
      else Inr None)"

definition quote_class :: string where
  "quote_class = [CHR 0x22, CHR 0x27]"

text \<open>The tail \<open>\s*=\s*["\'][^"\']+["\']\<close> shared by the three assignment patterns.\<close>

definition quoted_assignment :: pattern where
  "quoted_assignment =
     [Star Space, Ch (Lit (CHR ''='')), Star Space,
      Ch (OneOf quote_class), Plus (NoneOf quote_class), Ch (OneOf quote_class)]"

text \<open>\<open>\beval\s*\(\<close>\<close>

definition eval_pattern :: pattern where
  "eval_pattern = WordBoundary # lits ''eval'' @ [Star Space, Ch (Lit (CHR ''(''))]"

text \<open>\<open>\bexec\s*\(\<close>\<close>

definition exec_pattern :: pattern where
  "exec_pattern = WordBoundary # lits ''exec'' @ [Star Space, Ch (Lit (CHR ''(''))]"

text \<open>\<open>\bpickle\.loads?\(\<close>\<close>

definition pickle_pattern :: pattern where
  "pickle_pattern =
     WordBoundary # lits ''pickle.load'' @ [Opt (Lit (CHR ''s'')), Ch (Lit (CHR ''(''))]"

text \<open>\<open>password\s*=\s*["\'][^"\']+["\']\<close>\<close>

definition password_pattern :: pattern where
  "password_pattern = lits ''password'' @ quoted_assignment"

text \<open>\<open>api[_-]?key\s*=\s*["\'][^"\']+["\']\<close>\<close>

definition api_key_pattern :: pattern where
  "api_key_pattern = lits ''api'' @ [Opt (OneOf ''_-'')] @ lits ''key'' @ quoted_assignment"

text \<open>\<open>secret\s*=\s*["\'][^"\']+["\']\<close>\<close>

definition secret_pattern :: pattern where
  "secret_pattern = lits ''secret'' @ quoted_assignment"

text \<open>
  \<open>dangerous_patterns\<close>, in the insertion order of the dictionary, which is the order of
  the loop: pattern, message, severity.
\<close>

definition dangerous_patterns :: "(pattern \<times> string \<times> string) list" where
  "dangerous_patterns =
     [(eval_pattern, ''Use of eval() detected'', ''high''),
      (exec_pattern, ''Use of exec() detected'', ''high''),
      (pickle_pattern, ''Use of pickle detected - consider safer alternatives'', ''medium''),
      (password_pattern, ''Possible hardcoded password'', ''high''),
      (api_key_pattern, ''Possible hardcoded API key'', ''high''),
      (secret_pattern, ''Possible hardcoded secret'', ''high'')]"

text \<open>The loop of \<open>check_security_patterns\<close>; \<open>acc\<close> is the list \<open>issues\<close>.\<close>

fun security_loop :: "(pattern \<times> string \<times> string) list \<Rightarrow> string \<Rightarrow> Issue list \<Rightarrow> exn + Issue list" where
  "security_loop [] d acc = Inr acc"
| "security_loop ((p, msg, sev) # rest) d acc =
     (if re_search True p d
      then (case new_Issue ''security'' sev msg 1 ''review'' None None of
              Inl e \<Rightarrow> Inl e
            | Inr i \<Rightarrow> security_loop rest d (acc @ [i]))
      else security_loop rest d acc)"

definition check_security_patterns :: "string \<Rightarrow> exn + Issue list" where
  "check_security_patterns d = security_loop dangerous_patterns d []"

text \<open>\<open>from\s+\S+\s+import\s+\*\<close>\<close>

definition star_import_pattern :: pattern where
  "star_import_pattern =
     lits ''from'' @ [Plus Space, Plus NonSpace, Plus Space] @ lits ''import'' @
     [Plus Space, Ch (Lit (CHR ''*''))]"

definition check_import_quality :: "string \<Rightarrow> exn + Issue list" where
  "check_import_quality d =
     (if re_search False star_import_pattern d
      then (case new_Issue ''style'' ''low''
                   ''Star import (import *) detected. Consider explicit imports.''
                   (9 / 10) ''review'' None None of
              Inl e \<Rightarrow> Inl e
            | Inr i \<Rightarrow> Inr [i])
      else Inr [])"

definition is_added_line :: "string \<Rightarrow> bool" where
  "is_added_line line = (startswith line ''+'' \<and> \<not> startswith line ''+++'')"

definition added_lines :: "string \<Rightarrow> string list" where
  "added_lines d = filter is_added_line (split d ''\<newline>'')"

text \<open>\<open>^\+\s*def\s+\w+\s*\(\<close>\<close>

definition function_pattern :: pattern where
  "function_pattern =
     [LineStart, Ch (Lit (CHR ''+'')), Star Space] @ lits ''def'' @
     [Plus Space, Plus Word, Star Space, Ch (Lit (CHR ''(''))]"

definition function_count :: "string list \<Rightarrow> nat" where
  "function_count ls = length (filter (re_match False function_pattern) ls)"

definition check_code_complexity :: "string \<Rightarrow> exn + Issue list" where
  "check_code_complexity d =
     (let added = added_lines d in
      if length added > 100
      then (if function_count added = 1
            then (case new_Issue ''complexity'' ''medium''
                         ''Large function detected (>100 lines). Consider breaking into smaller functions.''
                         (8 / 10) ''review'' None None of
                    Inl e \<Rightarrow> Inl e
                  | Inr i \<Rightarrow> Inr [i])
            else Inr [])
      else Inr [])"

text \<open>What a registered check returns: \<open>None\<close>, one \<open>Issue\<close>, or a list.\<close>

datatype rule_result = RNone | RIssue Issue | RList "Issue list"

fun truthy :: "rule_result \<Rightarrow> bool" where
  "truthy RNone = False"
| "truthy (RIssue i) = True"
| "truthy (RList xs) = (xs \<noteq> [])"

definition optional_result :: "exn + Issue option \<Rightarrow> exn + rule_result" where
  "optional_result r =
     (case r of Inl e \<Rightarrow> Inl e | Inr None \<Rightarrow> Inr RNone | Inr (Some i) \<Rightarrow> Inr (RIssue i))"

definition list_result :: "exn + Issue list \<Rightarrow> exn + rule_result" where
  "list_result r = (case r of Inl e \<Rightarrow> Inl e | Inr xs \<Rightarrow> Inr (RList xs))"

text \<open>\<open>RULE_REGISTRY\<close>; \<open>check_pr_size\<close> is called with its default threshold.\<close>

definition RULE_REGISTRY :: "(string \<Rightarrow> exn + rule_result) list" where
  "RULE_REGISTRY =
     [\<lambda>d. optional_result (check_pr_size d 500),
      \<lambda>d. list_result (check_security_patterns d),
      \<lambda>d. list_result (check_import_quality d),
      \<lambda>d. list_result (check_code_complexity d)]"

fun rules_loop :: "(string \<Rightarrow> exn + rule_result) list \<Rightarrow> string \<Rightarrow> Issue list \<Rightarrow> exn + Issue list" where
  "rules_loop [] d acc = Inr acc"
| "rules_loop (rule_func # rest) d acc =
     (case rule_func d of
        Inl e \<Rightarrow> Inl e
      | Inr result \<Rightarrow>
          if truthy result
          then (case result of
                  RList xs \<Rightarrow> rules_loop rest d (acc @ xs)
                | RIssue i \<Rightarrow> rules_loop rest d (acc @ [i])
                | RNone \<Rightarrow> rules_loop rest d acc)
          else rules_loop rest d acc)"

definition run_all_rules :: "string \<Rightarrow> exn + Issue list" where
  "run_all_rules d = rules_loop RULE_REGISTRY d []"

section \<open>Prompts (\<open>app/prompts.py\<close>)\<close>

definition PROMPT_VERSION :: string where
  "PROMPT_VERSION = ''v1.0''"

definition build_task_prompt :: "string \<Rightarrow> string \<Rightarrow> string \<Rightarrow> string" where
  "build_task_prompt pr_diff pr_title pr_description =
     ''Review this Python pull request:\<newline>\<newline>TITLE: '' @ pr_title @
     ''\<newline>\<newline>DESCRIPTION:\<newline>'' @ pr_description @
     ''\<newline>\<newline>DIFF:\<newline>'' @ pr_diff @
     ''\<newline>\<newline>Return a JSON array of issues following the schema specified in the system prompt.\<newline>If no issues found, return an empty array: []''"

section \<open>What the code takes from outside the repository\<close>

text \<open>
  The Python values that \<open>json.loads\<close> returns. A \<open>JDict\<close> lists the items of a dictionary,
  so its keys are distinct. A \<open>JFloat\<close> is a finite float; the values \<open>NaN\<close> and
  \<open>Infinity\<close>, which \<open>json.loads\<close> also reads, are outside the model.
\<close>

datatype json =
    JNull
  | JBool bool
  | JInt int
  | JFloat rat
  | JStr string
  | JList "json list"
  | JDict "(string \<times> json) list"

text \<open>
  The libraries and services behind the gateway are parameters of the model:
  \<^item> \<open>json_loads\<close> is \<open>json.loads\<close>, which returns a value or raises;
  \<^item> \<open>float_field\<close> and \<open>int_field\<close> are the conversions that pydantic applies to a value
    given for a field declared \<open>float\<close> or \<open>int\<close> (\<open>None\<close>: the value is rejected);
  \<^item> \<open>import_error m\<close> is the exception that \<open>import m\<close> raises, if it raises one;
  \<^item> \<open>getenv\<close> is \<open>os.getenv\<close>;
  \<^item> \<open>openai_chat api_key task_prompt model timeout\<close>, \<open>anthropic_invoke\<close> (the same
    arguments) and \<open>local_post endpoint task_prompt model timeout\<close> are the three requests,
    each sent with the fixed system prompt; they return the text of the reply or raise;
  \<^item> \<open>elapsed\<close> is the rounded time that the clock measures for the review.
\<close>

record externals =
  json_loads :: "string \<Rightarrow> exn + json"
  float_field :: "json \<Rightarrow> rat option"
  int_field :: "json \<Rightarrow> int option"
  import_error :: "string \<Rightarrow> exn option"
  getenv :: "string \<Rightarrow> string option"
  openai_chat :: "string \<Rightarrow> string \<Rightarrow> string \<Rightarrow> int \<Rightarrow> exn + string"
  anthropic_invoke :: "string \<Rightarrow> string \<Rightarrow> string \<Rightarrow> int \<Rightarrow> exn + string"
  local_post :: "string \<Rightarrow> string \<Rightarrow> string \<Rightarrow> int \<Rightarrow> exn + string"
  elapsed :: rat

section \<open>Validation of one element (\<open>Issue(**item)\<close>)\<close>

text \<open>
  A field declared \<open>str\<close>, and the \<open>Literal\<close> fields before their constraint: pydantic 2,
  which the repository requires, takes a string only.
\<close>

fun str_field :: "json \<Rightarrow> string option" where
  "str_field (JStr s) = Some s"
| "str_field v = None"

text \<open>A field without default: the key has to be present and its value of the field's type.\<close>

definition required :: "(string \<times> json) list \<Rightarrow> string \<Rightarrow> (json \<Rightarrow> 'a option) \<Rightarrow> 'a option" where
  "required kwargs k conv = (case map_of kwargs k of None \<Rightarrow> None | Some v \<Rightarrow> conv v)"

text \<open>A field \<open>Optional[T] = None\<close>: an absent key and the value \<open>None\<close> both give \<open>None\<close>.\<close>

definition optional :: "(string \<times> json) list \<Rightarrow> string \<Rightarrow> (json \<Rightarrow> 'a option) \<Rightarrow> 'a option option" where
  "optional kwargs k conv =
     (case map_of kwargs k of
        None \<Rightarrow> Some None
      | Some JNull \<Rightarrow> Some None
      | Some v \<Rightarrow> map_option Some (conv v))"

text \<open>
  \<open>Issue(**item)\<close>: \<open>item\<close> has to be a mapping (\<open>TypeError\<close> otherwise); the fields are
  typed, then constrained as in \<open>new_Issue\<close>; keys that are no field are ignored.
\<close>

definition typed_fields ::
  "externals \<Rightarrow> (string \<times> json) list \<Rightarrow>
   (string \<times> string \<times> string \<times> rat \<times> string \<times> int option \<times> string option) option" where
  "typed_fields w kwargs = do {
     t \<leftarrow> required kwargs ''type'' str_field;
     sev \<leftarrow> required kwargs ''severity'' str_field;
     msg \<leftarrow> required kwargs ''message'' str_field;
     conf \<leftarrow> required kwargs ''confidence'' (float_field w);
     act \<leftarrow> required kwargs ''action'' str_field;
     lineno \<leftarrow> optional kwargs ''line_number'' (int_field w);
     fp \<leftarrow> optional kwargs ''file_path'' str_field;
     Some (t, sev, msg, conf, act, lineno, fp)
   }"

definition Issue_of_item :: "externals \<Rightarrow> json \<Rightarrow> exn + Issue" where
  "Issue_of_item w item =
     (case item of
        JDict kwargs \<Rightarrow>
          (case typed_fields w kwargs of
             None \<Rightarrow> Inl (ValidationError ''validation error for Issue'')
           | Some (t, sev, msg, conf, act, lineno, fp) \<Rightarrow> new_Issue t sev msg conf act lineno fp)
      | _ \<Rightarrow> Inl (TypeError ''argument after ** must be a mapping''))"

section \<open>LLM gateway (\<open>app/reviewer.py\<close>)\<close>

definition CONFIDENCE_THRESHOLD :: rat where
  "CONFIDENCE_THRESHOLD = 7 / 10"

definition fence :: string where
  "fence = ''```''"

text \<open>
  The first lines of \<open>_parse_llm_output\<close>: the text that is handed to \<open>json.loads\<close>.
  Index 1 of the split raises \<open>IndexError\<close> when the split has fewer than two parts.
\<close>

definition unfence :: "string \<Rightarrow> exn + string" where
  "unfence content =
     (let c = strip content in
      if startswith c fence
      then (case split c fence of
              p0 # c1 # ps \<Rightarrow> Inr (if startswith c1 ''json'' then drop 4 c1 else c1)
            | _ \<Rightarrow> Inl (IndexError ''list index out of range''))
      else Inr c)"

text \<open>The loop over \<open>issues_data\<close>; an element that raises is skipped.\<close>

fun issues_loop :: "externals \<Rightarrow> json list \<Rightarrow> Issue list \<Rightarrow> Issue list" where
  "issues_loop w [] acc = acc"
| "issues_loop w (item # rest) acc =
     (case Issue_of_item w item of
        Inl e \<Rightarrow> issues_loop w rest acc
      | Inr issue \<Rightarrow>
          if confidence issue \<ge> CONFIDENCE_THRESHOLD
          then issues_loop w rest (acc @ [issue])
          else issues_loop w rest acc)"

text \<open>The body of the outer \<open>try\<close>.\<close>

definition parse_body :: "externals \<Rightarrow> string \<Rightarrow> exn + Issue list" where
  "parse_body w content =
     (case unfence content of
        Inl e \<Rightarrow> Inl e
      | Inr c \<Rightarrow>
          (case json_loads w c of
             Inl e \<Rightarrow> Inl e
           | Inr issues_data \<Rightarrow>
               (case issues_data of
                  JList items \<Rightarrow> Inr (issues_loop w items [])
                | _ \<Rightarrow> Inl (LLMInvalidOutputError ''LLM output is not a JSON array''))))"

text \<open>\<open>_parse_llm_output\<close>, with its two \<open>except\<close> clauses in the order of the source.\<close>

definition parse_llm_output :: "externals \<Rightarrow> string \<Rightarrow> exn + Issue list" where
  "parse_llm_output w content =
     (case parse_body w content of
        Inr found \<Rightarrow> Inr found
      | Inl (JSONDecodeError m) \<Rightarrow> Inl (LLMInvalidOutputError ''LLM output is not valid JSON'')
      | Inl e \<Rightarrow> Inl (LLMInvalidOutputError (''Failed to parse LLM output: '' @ str_exn e)))"

text \<open>
  \<open>_call_openai\<close>: the import, the key and the request stand inside the \<open>try\<close>, and so does
  the parsing of the reply.
\<close>

definition call_openai :: "externals \<Rightarrow> string \<Rightarrow> string \<Rightarrow> int \<Rightarrow> exn + Issue list" where
  "call_openai w task_prompt model timeout =
     (case (case import_error w ''openai'' of
              Some e \<Rightarrow> Inl e
            | None \<Rightarrow>
           (case getenv w ''OPENAI_API_KEY'' of
              None \<Rightarrow> Inl (ReviewerError ''OPENAI_API_KEY not set'')
            | Some api_key \<Rightarrow>
                if api_key = [] then Inl (ReviewerError ''OPENAI_API_KEY not set'')
                else (case openai_chat w api_key task_prompt model timeout of
                        Inl e \<Rightarrow> Inl e
                      | Inr content \<Rightarrow> parse_llm_output w content))) of
        Inr found \<Rightarrow> Inr found
      | Inl e \<Rightarrow>
          if contains (lower (str_exn e)) ''timeout''
          then Inl (LLMTimeoutError ''OpenAI API timeout'')
          else Inl (ReviewerError (''OpenAI API error: '' @ str_exn e)))"

text \<open>\<open>_call_anthropic\<close>\<close>

definition call_anthropic :: "externals \<Rightarrow> string \<Rightarrow> string \<Rightarrow> int \<Rightarrow> exn + Issue list" where
  "call_anthropic w task_prompt model timeout =
     (case (case import_error w ''langchain_anthropic'' of
              Some e \<Rightarrow> Inl e
            | None \<Rightarrow>
           (case import_error w ''langchain_core.messages'' of
              Some e \<Rightarrow> Inl e
            | None \<Rightarrow>
           (case getenv w ''ANTHROPIC_API_KEY'' of
              None \<Rightarrow> Inl (ReviewerError ''ANTHROPIC_API_KEY not set'')
            | Some api_key \<Rightarrow>
                if api_key = [] then Inl (ReviewerError ''ANTHROPIC_API_KEY not set'')
                else (case anthropic_invoke w api_key task_prompt model timeout of
                        Inl e \<Rightarrow> Inl e
                      | Inr content \<Rightarrow> parse_llm_output w content)))) of
        Inr found \<Rightarrow> Inr found
      | Inl e \<Rightarrow> Inl (ReviewerError (''Anthropic (LangChain) error: '' @ str_exn e)))"

text \<open>\<open>_call_local\<close>: the import of \<open>requests\<close> stands before the \<open>try\<close>.\<close>

definition call_local :: "externals \<Rightarrow> string \<Rightarrow> string \<Rightarrow> int \<Rightarrow> exn + Issue list" where
  "call_local w task_prompt model timeout =
     (case import_error w ''requests'' of
        Some e \<Rightarrow> Inl e
      | None \<Rightarrow>
     (let endpoint = (case getenv w ''LOCAL_LLM_ENDPOINT'' of
                        None \<Rightarrow> ''http://localhost:8000/v1/chat/completions''
                      | Some url \<Rightarrow> url) in
      case (case local_post w endpoint task_prompt model timeout of
              Inl e \<Rightarrow> Inl e
            | Inr content \<Rightarrow> parse_llm_output w content) of
        Inr found \<Rightarrow> Inr found
      | Inl (Timeout m) \<Rightarrow> Inl (LLMTimeoutError ''Local LLM timeout'')
      | Inl e \<Rightarrow> Inl (ReviewerError (''Local LLM error: '' @ str_exn e))))"

definition call_llm :: "externals \<Rightarrow> PRDiff \<Rightarrow> string \<Rightarrow> string \<Rightarrow> int \<Rightarrow> exn + Issue list" where
  "call_llm w pr_diff provider model timeout =
     (let task_prompt = build_task_prompt (diff pr_diff) (title pr_diff) (description pr_diff) in
      case (if provider = ''openai'' then call_openai w task_prompt model timeout
            else if provider = ''anthropic'' then call_anthropic w task_prompt model timeout
            else if provider = ''local'' then call_local w task_prompt model timeout
            else Inl (ReviewerError (''Unsupported LLM provider: '' @ provider))) of
        Inr found \<Rightarrow> Inr found
      | Inl e \<Rightarrow>
          if is_ReviewerError e then Inl e
          else Inl (ReviewerError (''LLM call failed: '' @ str_exn e)))"

section \<open>Orchestrator (\<open>review_pr\<close>)\<close>

text \<open>The loop \<open>severity_counts[issue.severity] += 1\<close>; a missing key raises \<open>KeyError\<close>.\<close>

fun tally :: "Issue list \<Rightarrow> (string \<rightharpoonup> int) \<Rightarrow> exn + (string \<rightharpoonup> int)" where
  "tally [] counts = Inr counts"
| "tally (issue # rest) counts =
     (case counts (severity issue) of
        None \<Rightarrow> Inl (KeyError (severity issue))
      | Some n \<Rightarrow> tally rest (counts(severity issue \<mapsto> n + 1)))"

definition getitem :: "(string \<rightharpoonup> int) \<Rightarrow> string \<Rightarrow> exn + int" where
  "getitem counts k = (case counts k of None \<Rightarrow> Inl (KeyError k) | Some n \<Rightarrow> Inr n)"

text \<open>Step 2 of \<open>review_pr\<close>: \<open>(llm_issues, llm_used, model_name)\<close> after the \<open>try\<close>.\<close>

definition llm_step ::
  "(PRDiff \<Rightarrow> string \<Rightarrow> string \<Rightarrow> exn + Issue list) \<Rightarrow> PRDiff \<Rightarrow> bool \<Rightarrow> string \<Rightarrow> string \<Rightarrow>
   exn + (Issue list \<times> bool \<times> string option)" where
  "llm_step gateway pr_diff use_llm llm_provider llm_model =
     (if use_llm
      then (case gateway pr_diff llm_provider llm_model of
              Inr found \<Rightarrow> Inr (found, True, Some llm_model)
            | Inl (LLMTimeoutError m) \<Rightarrow> Inr ([], False, None)
            | Inl (LLMInvalidOutputError m) \<Rightarrow> Inr ([], False, None)
            | Inl (ReviewerError m) \<Rightarrow> Inr ([], False, None)
            | Inl e \<Rightarrow> Inl e)
      else Inr ([], False, None))"

text \<open>
  \<open>review_pr\<close> with the gateway that it calls as an argument: \<open>gateway pr provider model\<close>
  stands for \<open>call_llm(pr_diff, provider=.., model=..)\<close>, and \<open>seconds\<close> for the measured time.
\<close>

definition review_pr_with ::
  "(PRDiff \<Rightarrow> string \<Rightarrow> string \<Rightarrow> exn + Issue list) \<Rightarrow> rat \<Rightarrow>
   PRDiff \<Rightarrow> bool \<Rightarrow> string \<Rightarrow> string \<Rightarrow> exn + ReviewOutput" where
  "review_pr_with gateway seconds pr_diff use_llm llm_provider llm_model =
     (case run_all_rules (diff pr_diff) of
        Inl e \<Rightarrow> Inl e
      | Inr rule_issues \<Rightarrow>
     (case llm_step gateway pr_diff use_llm llm_provider llm_model of
        Inl e \<Rightarrow> Inl e
      | Inr (llm_issues, used, name) \<Rightarrow>
     (let all_issues = rule_issues @ llm_issues in
      case tally all_issues [''low'' \<mapsto> 0, ''medium'' \<mapsto> 0, ''high'' \<mapsto> 0] of
        Inl e \<Rightarrow> Inl e
      | Inr severity_counts \<Rightarrow>
     (case getitem severity_counts ''high'' of Inl e \<Rightarrow> Inl e | Inr high \<Rightarrow>
     (case getitem severity_counts ''medium'' of Inl e \<Rightarrow> Inl e | Inr medium \<Rightarrow>
     (case getitem severity_counts ''low'' of Inl e \<Rightarrow> Inl e | Inr low \<Rightarrow>
        Inr \<lparr>pr_number = PRDiff.pr_number pr_diff,
             issues = all_issues,
             summary = \<lparr>total_issues = int (length all_issues),
                        high_severity = high,
                        medium_severity = medium,
                        low_severity = low,
                        review_time_seconds = seconds,
                        llm_used = used,
                        model_name = name\<rparr>,
             metadata = [''prompt_version'' \<mapsto> Some PROMPT_VERSION,
                         ''llm_provider'' \<mapsto> (if used then Some llm_provider else None)]\<rparr>))))))"

text \<open>\<open>review_pr\<close>: the gateway is \<open>call_llm\<close> with its default timeout of 30 seconds.\<close>

definition review_pr :: "externals \<Rightarrow> PRDiff \<Rightarrow> bool \<Rightarrow> string \<Rightarrow> string \<Rightarrow> exn + ReviewOutput" where
  "review_pr w pr_diff use_llm llm_provider llm_model =
     review_pr_with (\<lambda>p provider model. call_llm w p provider model 30) (elapsed w)
       pr_diff use_llm llm_provider llm_model"

section \<open>Vocabulary of the properties\<close>

text \<open>The constraints of the \<open>Issue\<close> schema on a stored value.\<close>

definition valid_issue :: "Issue \<Rightarrow> bool" where
  "valid_issue i =
     (0 \<le> confidence i \<and> confidence i \<le> 1 \<and>
      severity i \<in> set [''low'', ''medium'', ''high''] \<and>
      action i \<in> set [''review'', ''ignore''])"

text \<open>The issue that a detector builds: action \<open>review\<close>, no line and no file.\<close>

definition rule_issue :: "string \<Rightarrow> string \<Rightarrow> string \<Rightarrow> rat \<Rightarrow> Issue" where
  "rule_issue t sev msg conf =
     \<lparr>type = t, severity = sev, message = msg, confidence = conf, action = ''review'',
      line_number = None, file_path = None\<rparr>"

text \<open>What one entry of \<open>dangerous_patterns\<close> adds to the result.\<close>

definition fired :: "pattern \<Rightarrow> string \<Rightarrow> string \<Rightarrow> string \<Rightarrow> Issue list" where
  "fired p msg sev d = (if re_search True p d then [rule_issue ''security'' sev msg 1] else [])"

definition option_list :: "'a option \<Rightarrow> 'a list" where
  "option_list x = (case x of None \<Rightarrow> [] | Some y \<Rightarrow> [y])"

text \<open>A text made of the given lines, each ended by a line terminator.\<close>

definition unlines :: "string list \<Rightarrow> string" where
  "unlines ls = concat (map (\<lambda>l. l @ ''\<newline>'') ls)"

text \<open>
  Sample diffs: \<open>n\<close> added lines; one added function of 100 lines; two added functions
  and 100 more lines.
\<close>

definition big_diff :: "nat \<Rightarrow> string" where
  "big_diff n = unlines (replicate n ''+x'')"

definition long_function_diff :: string where
  "long_function_diff = unlines (''+def f(x):'' # replicate 100 ''+    pass'')"

definition two_function_diff :: string where
  "two_function_diff = unlines (''+def f(x):'' # ''+def g(y):'' # replicate 100 ''+    pass'')"

text \<open>
  The elements of the array that \<open>Issue\<close> accepts, in their order, and of these the ones at
  or above the threshold.
\<close>

definition survivors :: "externals \<Rightarrow> json list \<Rightarrow> Issue list" where
  "survivors w items =
     filter (\<lambda>i. confidence i \<ge> 7 / 10)
       (concat (map (\<lambda>item. case Issue_of_item w item of Inl e \<Rightarrow> [] | Inr i \<Rightarrow> [i]) items))"

text \<open>
  No fence begins inside \<open>body\<close>, so that in \<open>fence @ body @ fence @ rest\<close> the second fence
  is the first one after the opening fence.
\<close>

definition fence_free :: "string \<Rightarrow> bool" where
  "fence_free body = (\<not> contains (body @ ''``'') fence)"

text \<open>
  The schema of \<open>Issue\<close> in \<open>models.py\<close>, read as a relation between an element of the array
  and the issue that it denotes: the element is an object; \<open>type\<close>, \<open>severity\<close>, \<open>message\<close>
  and \<open>action\<close> are present and strings; \<open>severity\<close> and \<open>action\<close> lie in their
  enumerations; \<open>confidence\<close> is present, converts to a float and lies in \<open>[0, 1]\<close>;
  \<open>line_number\<close> is absent, \<open>null\<close> or converts to an integer, and \<open>file_path\<close> is absent,
  \<open>null\<close> or a string.
\<close>

definition schema_accepts :: "externals \<Rightarrow> json \<Rightarrow> Issue \<Rightarrow> bool" where
  "schema_accepts w item i =
     (case item of
        JDict kwargs \<Rightarrow>
          map_of kwargs ''type'' = Some (JStr (type i)) \<and>
          map_of kwargs ''severity'' = Some (JStr (severity i)) \<and>
          severity i \<in> set [''low'', ''medium'', ''high''] \<and>
          map_of kwargs ''message'' = Some (JStr (message i)) \<and>
          (case map_of kwargs ''confidence'' of
             None \<Rightarrow> False
           | Some v \<Rightarrow> float_field w v = Some (confidence i)) \<and>
          0 \<le> confidence i \<and> confidence i \<le> 1 \<and>
          map_of kwargs ''action'' = Some (JStr (action i)) \<and>
          action i \<in> set [''review'', ''ignore''] \<and>
          (case map_of kwargs ''line_number'' of
             None \<Rightarrow> line_number i = None
           | Some JNull \<Rightarrow> line_number i = None
           | Some v \<Rightarrow> (case int_field w v of
                         None \<Rightarrow> False
                       | Some n \<Rightarrow> line_number i = Some n)) \<and>
          (case map_of kwargs ''file_path'' of
             None \<Rightarrow> file_path i = None
           | Some JNull \<Rightarrow> file_path i = None
           | Some (JStr s) \<Rightarrow> file_path i = Some s
           | Some v \<Rightarrow> False)
      | _ \<Rightarrow> False)"

definition count_severity :: "string \<Rightarrow> Issue list \<Rightarrow> int" where
  "count_severity k xs = int (length (filter (\<lambda>i. severity i = k) xs))"

section \<open>The inline checks of \<open>api.py\<close>\<close>

text \<open>
  \<open>api.py\<close> carries its own copy of three detectors, with its own table of patterns, and
  builds plain dictionaries; they are modelled as unvalidated \<open>Issue\<close> values.
\<close>

text \<open>\<open>SECRET_KEY\s*=\s*["\']\<close>\<close>

definition secret_key_pattern :: pattern where
  "secret_key_pattern =
     lits ''SECRET_KEY'' @ [Star Space, Ch (Lit (CHR ''='')), Star Space, Ch (OneOf quote_class)]"

text \<open>\<open>hashlib\.md5\<close>\<close>

definition md5_pattern :: pattern where
  "md5_pattern = lits ''hashlib.md5''"

definition api_patterns :: "(pattern \<times> string \<times> string) list" where
  "api_patterns =
     [(eval_pattern, ''Use of eval() detected - security risk'', ''high''),
      (exec_pattern, ''Use of exec() detected - security risk'', ''high''),
      (password_pattern, ''Possible hardcoded password'', ''high''),
      (api_key_pattern, ''Possible hardcoded API key'', ''high''),
      (secret_key_pattern, ''Hardcoded secret key detected'', ''high''),
      (md5_pattern, ''MD5 is broken - use SHA256 or bcrypt'', ''high''),
      (pickle_pattern, ''pickle.load() is unsafe - use safer alternatives'', ''medium'')]"

fun api_security_loop :: "(pattern \<times> string \<times> string) list \<Rightarrow> string \<Rightarrow> Issue list \<Rightarrow> Issue list" where
  "api_security_loop [] d acc = acc"
| "api_security_loop ((p, msg, sev) # rest) d acc =
     (if re_search True p d
      then api_security_loop rest d (acc @ [rule_issue ''security'' sev msg 1])
      else api_security_loop rest d acc)"

definition api_check_security_patterns :: "string \<Rightarrow> Issue list" where
  "api_check_security_patterns d = api_security_loop api_patterns d []"

definition api_check_pr_size :: "string \<Rightarrow> int \<Rightarrow> Issue option" where
  "api_check_pr_size d threshold =
     (let n = length (filter is_changed_line (split d ''\<newline>'')) in
      if int n > threshold
      then Some (rule_issue ''pr_size'' ''medium''
                   (''PR has '' @ str_nat n @ '' lines changed. Consider splitting.'') 1)
      else None)"

definition api_check_import_quality :: "string \<Rightarrow> Issue list" where
  "api_check_import_quality d =
     (if re_search False star_import_pattern d
      then [rule_issue ''style'' ''low''
              ''Star import (import *) detected. Use explicit imports.'' (9 / 10)]
      else [])"

text \<open>\<open>run_review\<close> of \<open>api.py\<close>: the issues and the dictionary \<open>counts\<close>.\<close>

definition api_run_review :: "string \<Rightarrow> exn + (Issue list \<times> (string \<rightharpoonup> int))" where
  "api_run_review d =
     (let found = (case api_check_pr_size d 500 of None \<Rightarrow> [] | Some i \<Rightarrow> [i]) @
                  api_check_security_patterns d @ api_check_import_quality d in
      case tally found [''low'' \<mapsto> 0, ''medium'' \<mapsto> 0, ''high'' \<mapsto> 0] of
        Inl e \<Rightarrow> Inl e
      | Inr counts \<Rightarrow> Inr (found, counts))"

section \<open>Sample inputs\<close>

text \<open>The diff of the demonstration endpoint \<open>/demo\<close> of \<open>api.py\<close>.\<close>

definition demo_diff :: string where
  "demo_diff =
     ''+SECRET_KEY = \"hardcoded-key-123\"\<newline>'' @
     ''+result = eval(user_input)\<newline>'' @
     ''+import hashlib\<newline>'' @
     ''+hashlib.md5(password.encode()).hexdigest()\<newline>'' @
     ''+from utils import *\<newline>''"

definition demo_pr :: PRDiff where
  "demo_pr =
     \<lparr>PRDiff.pr_number = 9999,
      title = ''Demo: Auth endpoint with intentional security issues'',
      description = '''', author = ''dev'', files_changed = [''auth.py''],
      diff = demo_diff, commit_message = ''add auth''\<rparr>"

text \<open>
  A reply of a model: an array of one issue of confidence 0.9, one of confidence 0.5 and
  one element without the required fields, and the value that \<open>json.loads\<close> gives for it.
\<close>

definition sample_array_text :: string where
  "sample_array_text =
     ''\<newline>['' @
     ''{\"type\": \"security\", \"severity\": \"high\", \"message\": \"High confidence\", '' @
     ''\"confidence\": 0.9, \"action\": \"review\"}, '' @
     ''{\"type\": \"style\", \"severity\": \"low\", \"message\": \"Low confidence\", '' @
     ''\"confidence\": 0.5, \"action\": \"review\"}, '' @
     ''{\"type\": \"invalid\", \"missing_fields\": true}'' @
     '']\<newline>''"

definition sample_elements :: "json list" where
  "sample_elements =
     [JDict [(''type'', JStr ''security''), (''severity'', JStr ''high''),
             (''message'', JStr ''High confidence''), (''confidence'', JFloat (9 / 10)),
             (''action'', JStr ''review'')],
      JDict [(''type'', JStr ''style''), (''severity'', JStr ''low''),
             (''message'', JStr ''Low confidence''), (''confidence'', JFloat (5 / 10)),
             (''action'', JStr ''review'')],
      JDict [(''type'', JStr ''invalid''), (''missing_fields'', JBool True)]]"

definition sample_array :: json where
  "sample_array = JList sample_elements"

definition sample_issue :: Issue where
  "sample_issue =
     \<lparr>type = ''security'', severity = ''high'', message = ''High confidence'',
      confidence = 9 / 10, action = ''review'', line_number = None, file_path = None\<rparr>"

text \<open>The reply wrapped in a fence with the tag \<open>json\<close>, with a bare fence, and unwrapped.\<close>

definition sample_reply :: string where
  "sample_reply = ''  '' @ fence @ ''json'' @ sample_array_text @ fence @ ''\<newline>''"

definition bare_fence_reply :: string where
  "bare_fence_reply = fence @ sample_array_text @ fence"

definition plain_reply :: string where
  "plain_reply = '' '' @ sample_array_text"

text \<open>
  The reply with an opening fence only, and the empty array in a fence with the language
  tag \<open>python\<close>.
\<close>

definition unclosed_reply :: string where
  "unclosed_reply = fence @ ''json'' @ strip sample_array_text"

definition python_reply :: string where
  "python_reply = fence @ ''python'' @ ''\<newline>[]\<newline>'' @ fence"

text \<open>
  Sample surroundings. \<open>json.loads\<close> is given by its values on the sample texts; pydantic's
  conversions accept numbers of the declared kind; every import succeeds, no API key is
  set, the hosted providers are unreachable, and the local server answers \<open>sample_reply\<close>.
\<close>

definition sample_json_loads :: "string \<Rightarrow> exn + json" where
  "sample_json_loads s =
     (if s = sample_array_text \<or> s = strip sample_array_text then Inr sample_array
      else if s = ''[]'' \<or> s = ''\<newline>[]\<newline>'' then Inr (JList [])
      else if s = ''{\"not\": \"an array\"}'' then Inr (JDict [(''not'', JStr ''an array'')])
      else Inl (JSONDecodeError ''Expecting value''))"

definition sample_externals :: externals where
  "sample_externals =
     \<lparr>json_loads = sample_json_loads,
      float_field = (\<lambda>v. case v of JFloat r \<Rightarrow> Some r | JInt n \<Rightarrow> Some (of_int n) | _ \<Rightarrow> None),
      int_field = (\<lambda>v. case v of JInt n \<Rightarrow> Some n | _ \<Rightarrow> None),
      import_error = (\<lambda>m. None),
      getenv = (\<lambda>k. None),
      openai_chat = (\<lambda>api_key task_prompt model timeout. Inl (OtherException ''connection refused'')),
      anthropic_invoke = (\<lambda>api_key task_prompt model timeout. Inl (OtherException ''connection refused'')),
      local_post = (\<lambda>endpoint task_prompt model timeout. Inr sample_reply),
      elapsed = 1 / 100\<rparr>"

section \<open>The detectors never raise\<close>

lemma new_Issue_Inr:
  assumes "new_Issue t sev msg conf act l f = Inr i"
  shows "i = \<lparr>type = t, severity = sev, message = msg, confidence = conf, action = act,
               line_number = l, file_path = f\<rparr>"
    and "valid_issue i"
  using assms by (auto simp: new_Issue_def valid_issue_def split: if_splits)

lemma new_Issue_rule:
  assumes "sev \<in> set [''low'', ''medium'', ''high'']" "0 \<le> conf" "conf \<le> 1"
  shows "new_Issue t sev msg conf ''review'' None None = Inr (rule_issue t sev msg conf)"
  using assms by (simp add: new_Issue_def rule_issue_def)

lemma check_pr_size_eq:
  "check_pr_size d threshold =
     (if int (lines_changed d) > threshold
      then Inr (Some (rule_issue ''pr_size'' ''medium''
                  (''PR has '' @ str_nat (lines_changed d) @
                   '' lines changed. Consider splitting for easier review.'') 1))
      else Inr None)"
  by (simp add: check_pr_size_def Let_def new_Issue_rule)

lemma security_loop_eq:
  assumes "\<forall>(p, msg, sev) \<in> set tab. sev \<in> set [''low'', ''medium'', ''high'']"
  shows "security_loop tab d acc =
           Inr (acc @ map (\<lambda>(p, msg, sev). rule_issue ''security'' sev msg 1)
                        (filter (\<lambda>(p, msg, sev). re_search True p d) tab))"
  using assms
proof (induction tab arbitrary: acc)
  case Nil
  then show ?case by simp
next
  case (Cons e tab)
  obtain p msg sev where e: "e = (p, msg, sev)" by (cases e) auto
  from Cons.prems e have sev: "sev \<in> set [''low'', ''medium'', ''high'']" by auto
  from Cons.prems have rest: "\<forall>(p, msg, sev) \<in> set tab. sev \<in> set [''low'', ''medium'', ''high'']"
    by auto
  show ?case
    using Cons.IH [OF rest] e new_Issue_rule [OF sev, of 1 "''security''" msg]
    by simp
qed

lemma check_security_patterns_eq:
  "check_security_patterns d =
     Inr (fired eval_pattern ''Use of eval() detected'' ''high'' d @
          fired exec_pattern ''Use of exec() detected'' ''high'' d @
          fired pickle_pattern ''Use of pickle detected - consider safer alternatives'' ''medium'' d @
          fired password_pattern ''Possible hardcoded password'' ''high'' d @
          fired api_key_pattern ''Possible hardcoded API key'' ''high'' d @
          fired secret_pattern ''Possible hardcoded secret'' ''high'' d)"
proof -
  have "\<forall>(p, msg, sev) \<in> set dangerous_patterns. sev \<in> set [''low'', ''medium'', ''high'']"
    by (simp add: dangerous_patterns_def)
  from security_loop_eq [OF this, of d "[]"] show ?thesis
    by (simp add: check_security_patterns_def dangerous_patterns_def fired_def)
qed

lemma check_import_quality_eq:
  "check_import_quality d =
     Inr (if re_search False star_import_pattern d
          then [rule_issue ''style'' ''low''
                  ''Star import (import *) detected. Consider explicit imports.'' (9 / 10)]
          else [])"
  by (simp add: check_import_quality_def new_Issue_rule)

lemma check_code_complexity_eq:
  "check_code_complexity d =
     Inr (if length (added_lines d) > 100 \<and> function_count (added_lines d) = 1
          then [rule_issue ''complexity'' ''medium''
                  ''Large function detected (>100 lines). Consider breaking into smaller functions.''
                  (8 / 10)]
          else [])"
  by (simp add: check_code_complexity_def Let_def new_Issue_rule)

lemma run_all_rules_concat:
  assumes "check_pr_size d 500 = Inr a" "check_security_patterns d = Inr b"
    "check_import_quality d = Inr c" "check_code_complexity d = Inr e"
  shows "run_all_rules d = Inr (option_list a @ b @ c @ e)"
  using assms
  by (cases a; cases b; cases c; cases e)
     (simp_all add: run_all_rules_def RULE_REGISTRY_def optional_result_def list_result_def
        option_list_def)

text \<open>
  The result of the engine: the results of the four detectors, in the order of the
  registry.
\<close>

lemma run_all_rules_eq:
  "\<exists>a b c e. check_pr_size d 500 = Inr a \<and> check_security_patterns d = Inr b \<and>
     check_import_quality d = Inr c \<and> check_code_complexity d = Inr e \<and>
     run_all_rules d = Inr (option_list a @ b @ c @ e)"
proof -
  have "\<exists>a. check_pr_size d 500 = Inr a"
    by (simp add: check_pr_size_eq)
  then obtain a where a: "check_pr_size d 500 = Inr a" ..
  have "\<exists>b. check_security_patterns d = Inr b"
    by (simp add: check_security_patterns_eq)
  then obtain b where b: "check_security_patterns d = Inr b" ..
  have "\<exists>c. check_import_quality d = Inr c"
    by (simp add: check_import_quality_eq)
  then obtain c where c: "check_import_quality d = Inr c" ..
  have "\<exists>e. check_code_complexity d = Inr e"
    by (simp add: check_code_complexity_eq)
  then obtain e where e: "check_code_complexity d = Inr e" ..
  from run_all_rules_concat [OF a b c e] a b c e show ?thesis by blast
qed

lemma rule_issue_sel [simp]:
  "type (rule_issue t sev msg conf) = t"
  "severity (rule_issue t sev msg conf) = sev"
  "message (rule_issue t sev msg conf) = msg"
  "confidence (rule_issue t sev msg conf) = conf"
  "action (rule_issue t sev msg conf) = ''review''"
  "line_number (rule_issue t sev msg conf) = None"
  "file_path (rule_issue t sev msg conf) = None"
  by (simp_all add: rule_issue_def)

lemma set_fired: "i \<in> set (fired p msg sev d) \<Longrightarrow> i = rule_issue ''security'' sev msg 1"
  by (simp add: fired_def split: if_splits)

text \<open>Every issue of the engine was built by a detector, from values the schema accepts.\<close>

lemma rule_issues_shape:
  assumes "run_all_rules d = Inr found" "i \<in> set found"
  shows "i = rule_issue (type i) (severity i) (message i) (confidence i) \<and>
         severity i \<in> set [''low'', ''medium'', ''high''] \<and>
         0 \<le> confidence i \<and> confidence i \<le> 1"
proof -
  obtain a b c e where parts: "check_pr_size d 500 = Inr a" "check_security_patterns d = Inr b"
      "check_import_quality d = Inr c" "check_code_complexity d = Inr e"
      "run_all_rules d = Inr (option_list a @ b @ c @ e)"
    using run_all_rules_eq [of d] by blast
  from assms parts(5) have "i \<in> set (option_list a) \<or> i \<in> set b \<or> i \<in> set c \<or> i \<in> set e"
    by auto
  then show ?thesis
  proof (elim disjE)
    assume "i \<in> set (option_list a)"
    with parts(1) show ?thesis
      by (auto simp: check_pr_size_eq option_list_def split: if_splits)
  next
    assume "i \<in> set b"
    with parts(2) show ?thesis
      by (auto simp: check_security_patterns_eq dest!: set_fired)
  next
    assume "i \<in> set c"
    with parts(3) show ?thesis
      by (auto simp: check_import_quality_eq split: if_splits)
  next
    assume "i \<in> set e"
    with parts(4) show ?thesis
      by (auto simp: check_code_complexity_eq split: if_splits)
  qed
qed

section \<open>Properties of the rule engine\<close>

text \<open>
  C7. \<open>run_all_rules\<close> returns a list for every string and raises for none: every
  \<open>raise\<close> of the model is a result \<open>Inl\<close>, and neither the engine nor one of its four
  detectors ever gives one. On the empty diff the engine returns the empty list.
\<close>

theorem run_all_rules_total:
  "(\<exists>found. run_all_rules d = Inr found) \<and>
   (\<exists>a. check_pr_size d threshold = Inr a) \<and>
   (\<exists>b. check_security_patterns d = Inr b) \<and>
   (\<exists>c. check_import_quality d = Inr c) \<and>
   (\<exists>e. check_code_complexity d = Inr e) \<and>
   run_all_rules '''' = Inr []"
proof -
  have "\<exists>found. run_all_rules d = Inr found"
    using run_all_rules_eq [of d] by blast
  moreover have "\<exists>a. check_pr_size d threshold = Inr a"
    by (simp add: check_pr_size_eq)
  moreover have "\<exists>b. check_security_patterns d = Inr b"
    by (simp add: check_security_patterns_eq)
  moreover have "\<exists>c. check_import_quality d = Inr c"
    by (simp add: check_import_quality_eq)
  moreover have "\<exists>e. check_code_complexity d = Inr e"
    by (simp add: check_code_complexity_eq)
  moreover have "run_all_rules '''' = Inr []" by code_simp
  ultimately show ?thesis by blast
qed

text \<open>
  C10. No issue of the rule engine names a line or a file: \<open>line_number\<close> and
  \<open>file_path\<close> are \<open>None\<close> in every issue that \<open>run_all_rules\<close> returns, for every diff.
\<close>

theorem rule_issues_unlocated:
  "\<exists>found. run_all_rules d = Inr found \<and>
     (\<forall>i \<in> set found. line_number i = None \<and> file_path i = None)"
proof -
  obtain found where f: "run_all_rules d = Inr found"
    using run_all_rules_eq [of d] by blast
  have "line_number i = None \<and> file_path i = None" if "i \<in> set found" for i
  proof -
    from rule_issues_shape [OF f that]
    have "i = rule_issue (type i) (severity i) (message i) (confidence i)" by simp
    then have "line_number i = None" "file_path i = None"
      by (metis rule_issue_sel(6), metis rule_issue_sel(7))
    then show ?thesis by simp
  qed
  with f show ?thesis by blast
qed

lemma star_import_run:
  "run_all_rules ''+from utils import *'' =
     Inr [rule_issue ''style'' ''low''
            ''Star import (import *) detected. Consider explicit imports.'' (9 / 10)]"
  by code_simp

theorem rule_issues_unlocated_witness:
  "\<exists>i. run_all_rules ''+from utils import *'' = Inr [i] \<and>
     line_number i = None \<and> file_path i = None"
  using rule_issues_unlocated [of "''+from utils import *''"] star_import_run by simp

subsection \<open>Texts given line by line\<close>

lemma split_line:
  "CHR ''\<newline>'' \<notin> set l \<Longrightarrow> split (l @ CHR ''\<newline>'' # s) ''\<newline>'' = l # split s ''\<newline>''"
  by (induction l) auto

lemma split_unlines:
  "\<forall>l \<in> set ls. CHR ''\<newline>'' \<notin> set l \<Longrightarrow> split (unlines ls) ''\<newline>'' = ls @ [[]]"
  by (induction ls) (simp_all add: unlines_def split_line)

lemma lines_changed_unlines:
  "\<forall>l \<in> set ls. CHR ''\<newline>'' \<notin> set l \<Longrightarrow>
     lines_changed (unlines ls) = length (filter is_changed_line ls)"
  by (simp add: lines_changed_def split_unlines is_changed_line_def)

lemma added_lines_unlines:
  "\<forall>l \<in> set ls. CHR ''\<newline>'' \<notin> set l \<Longrightarrow> added_lines (unlines ls) = filter is_added_line ls"
  by (simp add: added_lines_def split_unlines is_added_line_def)

lemma lines_changed_big_diff: "lines_changed (big_diff n) = n"
  by (simp add: big_diff_def lines_changed_unlines is_changed_line_def)

lemma pass_line:
  "is_added_line ''+    pass''" "\<not> re_match False function_pattern ''+    pass''"
  by code_simp+

lemma def_lines:
  "is_added_line ''+def f(x):''" "re_match False function_pattern ''+def f(x):''"
  "is_added_line ''+def g(y):''" "re_match False function_pattern ''+def g(y):''"
  by code_simp+

lemma long_function_counts:
  "length (added_lines long_function_diff) = 101"
  "function_count (added_lines long_function_diff) = 1"
  by (simp_all add: long_function_diff_def added_lines_unlines function_count_def
        pass_line def_lines)

lemma two_function_counts:
  "length (added_lines two_function_diff) = 102"
  "function_count (added_lines two_function_diff) = 2"
  by (simp_all add: two_function_diff_def added_lines_unlines function_count_def
        pass_line def_lines)

lemma short_counts: "length (added_lines ''+def f(x):'') = 1"
  by code_simp

subsection \<open>Size check\<close>

text \<open>
  C4. The size check counts the lines that begin with \<open>+\<close> or \<open>-\<close> but not with \<open>+++\<close> or
  \<open>---\<close> (\<open>lines_changed\<close>). With the default threshold 500, a diff of exactly 500 such
  lines gives no \<open>pr_size\<close> issue, neither from the check nor in the result of the engine;
  a diff of 501 such lines gives exactly one, of severity \<open>medium\<close> and confidence 1.0,
  whose message holds the count \<open>501\<close>.
\<close>

theorem size_check_boundary:
  "lines_changed d =
     length (filter (\<lambda>line. (startswith line ''+'' \<or> startswith line ''-'') \<and>
                             \<not> (startswith line ''+++'' \<or> startswith line ''---''))
               (split d ''\<newline>'')) \<and>
   (lines_changed d = 500 \<longrightarrow>
      check_pr_size d 500 = Inr None \<and>
      (\<exists>found. run_all_rules d = Inr found \<and> filter (\<lambda>i. type i = ''pr_size'') found = [])) \<and>
   (lines_changed d = 501 \<longrightarrow>
      (\<exists>i found. check_pr_size d 500 = Inr (Some i) \<and>
         type i = ''pr_size'' \<and> severity i = ''medium'' \<and> confidence i = 1 \<and>
         message i = ''PR has 501 lines changed. Consider splitting for easier review.'' \<and>
         contains (message i) ''501'' \<and>
         run_all_rules d = Inr found \<and> filter (\<lambda>i. type i = ''pr_size'') found = [i]))"
proof -
  have s501: "str_nat 501 = ''501''" by code_simp
  have c501: "contains ''PR has 501 lines changed. Consider splitting for easier review.'' ''501''"
    by simp
  obtain a b c e where parts: "check_pr_size d 500 = Inr a" "check_security_patterns d = Inr b"
      "check_import_quality d = Inr c" "check_code_complexity d = Inr e"
      "run_all_rules d = Inr (option_list a @ b @ c @ e)"
    using run_all_rules_eq [of d] by blast
  have b: "filter (\<lambda>i. type i = ''pr_size'') b = []"
    using parts(2) by (auto simp: check_security_patterns_eq filter_empty_conv dest!: set_fired)
  have c: "filter (\<lambda>i. type i = ''pr_size'') c = []"
    using parts(3) by (auto simp: check_import_quality_eq split: if_splits)
  have e: "filter (\<lambda>i. type i = ''pr_size'') e = []"
    using parts(4) by (auto simp: check_code_complexity_eq split: if_splits)
  have count: "lines_changed d =
     length (filter (\<lambda>line. (startswith line ''+'' \<or> startswith line ''-'') \<and>
                             \<not> (startswith line ''+++'' \<or> startswith line ''---''))
               (split d ''\<newline>''))"
    by (simp add: lines_changed_def is_changed_line_def [abs_def])
  have at_500: "lines_changed d = 500 \<longrightarrow>
      check_pr_size d 500 = Inr None \<and>
      (\<exists>found. run_all_rules d = Inr found \<and> filter (\<lambda>i. type i = ''pr_size'') found = [])"
    using parts(1,5) b c e
    by (auto simp: check_pr_size_eq option_list_def)
  have at_501: "lines_changed d = 501 \<longrightarrow>
      (\<exists>i found. check_pr_size d 500 = Inr (Some i) \<and>
         type i = ''pr_size'' \<and> severity i = ''medium'' \<and> confidence i = 1 \<and>
         message i = ''PR has 501 lines changed. Consider splitting for easier review.'' \<and>
         contains (message i) ''501'' \<and>
         run_all_rules d = Inr found \<and> filter (\<lambda>i. type i = ''pr_size'') found = [i])"
    using parts(1,5) b c e s501 c501
    by (auto simp: check_pr_size_eq option_list_def simp del: contains.simps)
  from count at_500 at_501 show ?thesis by (intro conjI)
qed

theorem size_check_boundary_witness:
  "lines_changed (big_diff 500) = 500 \<and> check_pr_size (big_diff 500) 500 = Inr None \<and>
   lines_changed (big_diff 501) = 501 \<and>
   (\<exists>i found. check_pr_size (big_diff 501) 500 = Inr (Some i) \<and> type i = ''pr_size'' \<and>
      severity i = ''medium'' \<and> confidence i = 1 \<and> contains (message i) ''501'' \<and>
      run_all_rules (big_diff 501) = Inr found \<and> filter (\<lambda>i. type i = ''pr_size'') found = [i])"
proof -
  have a: "lines_changed (big_diff 500) = 500" and b: "lines_changed (big_diff 501) = 501"
    by (rule lines_changed_big_diff)+
  from size_check_boundary [of "big_diff 500"] a
  have "check_pr_size (big_diff 500) 500 = Inr None" by blast
  moreover from size_check_boundary [of "big_diff 501"] b
  have "\<exists>i found. check_pr_size (big_diff 501) 500 = Inr (Some i) \<and> type i = ''pr_size'' \<and>
      severity i = ''medium'' \<and> confidence i = 1 \<and> contains (message i) ''501'' \<and>
      run_all_rules (big_diff 501) = Inr found \<and> filter (\<lambda>i. type i = ''pr_size'') found = [i]"
    by blast
  ultimately show ?thesis using a b by blast
qed

subsection \<open>Security patterns\<close>

text \<open>
  C5. For every diff, the result of the security check is the concatenation, over the
  table of patterns in its order, of one issue for a pattern that matches somewhere in the
  diff and of nothing for a pattern that does not: a pattern adds at most one issue however
  often it matches, and whether it adds one depends on its own match only. Every issue has
  kind \<open>security\<close>, confidence 1.0 and action \<open>review\<close>; the severity is \<open>medium\<close> for the
  pickle pattern and \<open>high\<close> for every other pattern.
\<close>

theorem security_patterns_once_each:
  "\<exists>found. check_security_patterns d = Inr found \<and>
     found = concat (map (\<lambda>(p, msg, sev).
                 if re_search True p d
                 then [\<lparr>type = ''security'', severity = sev, message = msg, confidence = 1,
                        action = ''review'', line_number = None, file_path = None\<rparr>]
                 else []) dangerous_patterns) \<and>
     (\<forall>(p, msg, sev) \<in> set dangerous_patterns.
        length (filter (\<lambda>i. message i = msg) found) = (if re_search True p d then 1 else 0) \<and>
        sev = (if p = pickle_pattern then ''medium'' else ''high'')) \<and>
     (\<forall>i \<in> set found.
        type i = ''security'' \<and> confidence i = 1 \<and> action i = ''review'' \<and>
        severity i = (if message i = ''Use of pickle detected - consider safer alternatives''
                      then ''medium'' else ''high''))"
proof -
  have neq: "eval_pattern \<noteq> pickle_pattern" "exec_pattern \<noteq> pickle_pattern"
    "password_pattern \<noteq> pickle_pattern" "api_key_pattern \<noteq> pickle_pattern"
    "secret_pattern \<noteq> pickle_pattern"
    by (simp_all add: eval_pattern_def exec_pattern_def pickle_pattern_def password_pattern_def
        api_key_pattern_def secret_pattern_def lits_def)
  show ?thesis
    unfolding check_security_patterns_eq
    by (simp add: dangerous_patterns_def fired_def rule_issue_def neq)
qed

lemma nested_eval_matches:
  "re_search True eval_pattern ''pickle.loads(eval(eval(x)))''"
  "\<not> re_search True exec_pattern ''pickle.loads(eval(eval(x)))''"
  "re_search True pickle_pattern ''pickle.loads(eval(eval(x)))''"
  "\<not> re_search True password_pattern ''pickle.loads(eval(eval(x)))''"
  "\<not> re_search True api_key_pattern ''pickle.loads(eval(eval(x)))''"
  "\<not> re_search True secret_pattern ''pickle.loads(eval(eval(x)))''"
  by code_simp+

theorem security_patterns_once_each_witness:
  "check_security_patterns ''pickle.loads(eval(eval(x)))'' =
     Inr [\<lparr>type = ''security'', severity = ''high'', message = ''Use of eval() detected'',
           confidence = 1, action = ''review'', line_number = None, file_path = None\<rparr>,
          \<lparr>type = ''security'', severity = ''medium'',
           message = ''Use of pickle detected - consider safer alternatives'',
           confidence = 1, action = ''review'', line_number = None, file_path = None\<rparr>]"
  using security_patterns_once_each [of "''pickle.loads(eval(eval(x)))''"] nested_eval_matches
  by (auto simp: dangerous_patterns_def)

subsection \<open>Complexity check\<close>

text \<open>
  C6. The complexity check counts the lines that begin with \<open>+\<close> but not with \<open>+++\<close>
  (\<open>added_lines\<close>) and, among them, the lines on which the pattern of a function
  definition matches (\<open>function_count\<close>). For every diff: with more than 100 added lines
  and exactly one such definition it returns exactly one issue, of kind \<open>complexity\<close>,
  severity \<open>medium\<close> and confidence 0.8; with no or with several such definitions, or with
  at most 100 added lines, it returns no issue.
\<close>

theorem complexity_check:
  "added_lines d =
     filter (\<lambda>line. startswith line ''+'' \<and> \<not> startswith line ''+++'') (split d ''\<newline>'') \<and>
   function_count (added_lines d) =
     length (filter (\<lambda>line. re_match False function_pattern line) (added_lines d)) \<and>
   (length (added_lines d) > 100 \<and> function_count (added_lines d) = 1 \<longrightarrow>
      check_code_complexity d =
        Inr [\<lparr>type = ''complexity'', severity = ''medium'',
              message = ''Large function detected (>100 lines). Consider breaking into smaller functions.'',
              confidence = 8 / 10, action = ''review'', line_number = None, file_path = None\<rparr>]) \<and>
   (function_count (added_lines d) \<noteq> 1 \<longrightarrow> check_code_complexity d = Inr []) \<and>
   (length (added_lines d) \<le> 100 \<longrightarrow> check_code_complexity d = Inr [])"
proof -
  have lines: "added_lines d =
     filter (\<lambda>line. startswith line ''+'' \<and> \<not> startswith line ''+++'') (split d ''\<newline>'')"
    by (simp add: added_lines_def is_added_line_def [abs_def])
  have defs: "function_count (added_lines d) =
     length (filter (\<lambda>line. re_match False function_pattern line) (added_lines d))"
    by (simp add: function_count_def)
  have fires: "length (added_lines d) > 100 \<and> function_count (added_lines d) = 1 \<longrightarrow>
      check_code_complexity d =
        Inr [\<lparr>type = ''complexity'', severity = ''medium'',
              message = ''Large function detected (>100 lines). Consider breaking into smaller functions.'',
              confidence = 8 / 10, action = ''review'', line_number = None, file_path = None\<rparr>]"
    by (simp add: check_code_complexity_eq rule_issue_def)
  have silent: "function_count (added_lines d) \<noteq> 1 \<longrightarrow> check_code_complexity d = Inr []"
    "length (added_lines d) \<le> 100 \<longrightarrow> check_code_complexity d = Inr []"
    by (simp_all add: check_code_complexity_eq)
  from lines defs fires silent show ?thesis by (intro conjI)
qed

theorem complexity_check_witness:
  "length (added_lines long_function_diff) > 100 \<and>
   function_count (added_lines long_function_diff) = 1 \<and>
   check_code_complexity long_function_diff =
     Inr [\<lparr>type = ''complexity'', severity = ''medium'',
           message = ''Large function detected (>100 lines). Consider breaking into smaller functions.'',
           confidence = 8 / 10, action = ''review'', line_number = None, file_path = None\<rparr>] \<and>
   length (added_lines two_function_diff) > 100 \<and>
   function_count (added_lines two_function_diff) = 2 \<and>
   check_code_complexity two_function_diff = Inr [] \<and>
   length (added_lines ''+def f(x):'') = 1 \<and>
   check_code_complexity ''+def f(x):'' = Inr []"
proof -
  from complexity_check [of long_function_diff]
  have "length (added_lines long_function_diff) > 100 \<and>
      function_count (added_lines long_function_diff) = 1 \<longrightarrow>
      check_code_complexity long_function_diff =
        Inr [\<lparr>type = ''complexity'', severity = ''medium'',
              message = ''Large function detected (>100 lines). Consider breaking into smaller functions.'',
              confidence = 8 / 10, action = ''review'', line_number = None, file_path = None\<rparr>]"
    by blast
  with long_function_counts have a: "check_code_complexity long_function_diff =
        Inr [\<lparr>type = ''complexity'', severity = ''medium'',
              message = ''Large function detected (>100 lines). Consider breaking into smaller functions.'',
              confidence = 8 / 10, action = ''review'', line_number = None, file_path = None\<rparr>]"
    by simp
  from complexity_check [of two_function_diff]
  have "function_count (added_lines two_function_diff) \<noteq> 1 \<longrightarrow>
      check_code_complexity two_function_diff = Inr []"
    by blast
  with two_function_counts have b: "check_code_complexity two_function_diff = Inr []"
    by simp
  from complexity_check [of "''+def f(x):''"]
  have "length (added_lines ''+def f(x):'') \<le> 100 \<longrightarrow>
      check_code_complexity ''+def f(x):'' = Inr []"
    by blast
  with short_counts have c: "check_code_complexity ''+def f(x):'' = Inr []"
    by simp
  from a b c long_function_counts two_function_counts short_counts show ?thesis
    by simp
qed

section \<open>Properties of the gateway and of the orchestrator\<close>

subsection \<open>Parsing the reply\<close>

lemma split_nonempty: "split s sep \<noteq> []"
  by (induction s sep rule: split.induct) (auto split: list.splits)

lemma fence_nonempty: "fence \<noteq> []" 
  by (simp add: fence_def)

lemma split_at_separator:
  assumes "sep \<noteq> []" "startswith s sep"
  shows "\<exists>c1 ps. split s sep = [] # c1 # ps"
proof (cases s)
  case Nil
  with assms show ?thesis by (cases sep) auto
next
  case (Cons c cs)
  obtain c1 ps where "split (drop (length sep - 1) cs) sep = c1 # ps"
    using split_nonempty [of "drop (length sep - 1) cs" sep] by (cases "split (drop (length sep - 1) cs) sep") auto
  with assms Cons show ?thesis by simp
qed

lemma unfence_total: "\<exists>c. unfence content = Inr c"
proof (cases "startswith (strip content) fence")
  case True
  from split_at_separator [OF fence_nonempty True] show ?thesis
    using True by (auto simp: unfence_def Let_def)
next
  case False
  then show ?thesis by (simp add: unfence_def Let_def)
qed

lemma unfence_plain: "\<not> startswith (strip content) fence \<Longrightarrow> unfence content = Inr (strip content)"
  by (simp add: unfence_def Let_def)

lemma startswith_append: "startswith (p @ s) p"
  by (induction p) auto

lemma startswith_take: "startswith s p \<longleftrightarrow> take (length p) s = p"
  by (induction s p rule: startswith.induct) auto

lemma split_first_occurrence:
  assumes "sep \<noteq> []" "\<not> contains (body @ butlast sep) sep"
  shows "split (body @ sep @ rest) sep = body # split rest sep"
  using assms
proof (induction body)
  case Nil
  obtain c cs where sep: "sep = c # cs" using Nil(1) by (cases sep) auto
  have "startswith ((c # cs) @ rest) (c # cs)" by (rule startswith_append)
  then show ?case using sep by simp
next
  case (Cons b body)
  from Cons.prems(2) have no: "\<not> startswith ((b # body) @ butlast sep) sep"
    and rest: "\<not> contains (body @ butlast sep) sep" by simp_all
  have long: "length sep \<le> length ((b # body) @ butlast sep)"
    by simp
  have "sep = butlast sep @ [last sep]" using Cons.prems(1) by simp
  then have "sep @ rest = (butlast sep @ [last sep]) @ rest"
    by (rule arg_cong [where f = "\<lambda>x. x @ rest"])
  then have eq: "sep @ rest = butlast sep @ last sep # rest" by simp
  have "take (length sep) ((b # body) @ sep @ rest) =
      take (length sep) (((b # body) @ butlast sep) @ last sep # rest)"
    by (simp only: eq append_assoc)
  also have "\<dots> = take (length sep) ((b # body) @ butlast sep)"
    using long by (simp only: take_append) simp
  finally have "take (length sep) ((b # body) @ sep @ rest) =
      take (length sep) ((b # body) @ butlast sep)" .
  with no have "\<not> startswith ((b # body) @ sep @ rest) sep"
    by (simp add: startswith_take)
  with Cons.IH [OF Cons.prems(1) rest] show ?case by simp
qed


lemma fence_free_json: "fence_free body \<Longrightarrow> fence_free (''json'' @ body)"
  by (simp add: fence_free_def fence_def)

lemma split_fenced:
  assumes "fence_free body"
  shows "split (fence @ body @ fence @ rest) fence = [] # body # split rest fence"
proof -
  have b: "butlast fence = ''``''" by (simp add: fence_def)
  have "split ([] @ fence @ (body @ fence @ rest)) fence = [] # split (body @ fence @ rest) fence"
    by (rule split_first_occurrence) (simp_all add: fence_def)
  moreover have "split (body @ fence @ rest) fence = body # split rest fence"
    using assms by (intro split_first_occurrence) (simp_all add: fence_free_def b fence_nonempty)
  ultimately show ?thesis by simp
qed

lemma unfence_fenced:
  assumes "strip content = fence @ body @ fence @ rest" "fence_free body"
  shows "unfence content = Inr (if startswith body ''json'' then drop 4 body else body)"
proof -
  have "startswith (strip content) fence"
    unfolding assms(1) by (rule startswith_append)
  with split_fenced [OF assms(2), of rest] assms(1) show ?thesis
    by (simp add: unfence_def Let_def)
qed

lemma unfence_fenced_json:
  assumes "strip content = fence @ ''json'' @ body @ fence @ rest" "fence_free body"
  shows "unfence content = Inr body"
proof -
  from unfence_fenced [of content "''json'' @ body" rest, OF _ fence_free_json [OF assms(2)]] assms(1)
  show ?thesis by simp
qed

lemma issues_loop_eq: "issues_loop w items acc = acc @ survivors w items"
  by (induction items arbitrary: acc)
     (auto simp: survivors_def CONFIDENCE_THRESHOLD_def split: sum.splits)

lemma parse_llm_output_eq:
  assumes "unfence content = Inr c"
  shows "parse_llm_output w content =
    (case json_loads w c of
       Inr (JList items) \<Rightarrow> Inr (survivors w items)
     | Inr other \<Rightarrow> Inl (LLMInvalidOutputError ''Failed to parse LLM output: LLM output is not a JSON array'')
     | Inl (JSONDecodeError m) \<Rightarrow> Inl (LLMInvalidOutputError ''LLM output is not valid JSON'')
     | Inl e \<Rightarrow> Inl (LLMInvalidOutputError (''Failed to parse LLM output: '' @ str_exn e)))"
  using assms
  by (simp add: parse_llm_output_def parse_body_def issues_loop_eq split: sum.splits json.splits exn.splits)

lemma Issue_of_item_valid: "Issue_of_item w item = Inr i \<Longrightarrow> valid_issue i"
  by (auto simp: Issue_of_item_def split: json.splits option.splits dest: new_Issue_Inr(2))

lemma survivors_valid: "i \<in> set (survivors w items) \<Longrightarrow> valid_issue i"
  by (auto simp: survivors_def split: sum.splits dest: Issue_of_item_valid [OF sym])

lemma parse_llm_output_valid:
  assumes "parse_llm_output w content = Inr found" "i \<in> set found"
  shows "valid_issue i"
proof -
  obtain c where c: "unfence content = Inr c" using unfence_total by blast
  from assms(1) have "\<exists>items. found = survivors w items"
    unfolding parse_llm_output_eq [OF c]
    by (auto split: sum.splits json.splits exn.splits)
  with assms(2) show ?thesis by (auto dest: survivors_valid)
qed

lemma parse_llm_output_Inl:
  "parse_llm_output w content = Inl e \<Longrightarrow> \<exists>m. e = LLMInvalidOutputError m"
  by (auto simp: parse_llm_output_def split: sum.splits exn.splits)

lemma call_openai_Inr:
  "call_openai w tp m t = Inr found \<Longrightarrow> \<exists>content. parse_llm_output w content = Inr found"
  by (auto simp: call_openai_def split: sum.splits option.splits if_splits)

lemma call_anthropic_Inr:
  "call_anthropic w tp m t = Inr found \<Longrightarrow> \<exists>content. parse_llm_output w content = Inr found"
  by (auto simp: call_anthropic_def split: sum.splits option.splits if_splits)

lemma call_local_Inr:
  "call_local w tp m t = Inr found \<Longrightarrow> \<exists>content. parse_llm_output w content = Inr found"
  by (auto simp: call_local_def Let_def split: sum.splits option.splits if_splits exn.splits)

lemma call_llm_Inr:
  "call_llm w pr provider m t = Inr found \<Longrightarrow> \<exists>content. parse_llm_output w content = Inr found"
  by (auto simp: call_llm_def Let_def split: sum.splits if_splits
      dest: call_openai_Inr call_anthropic_Inr call_local_Inr)

lemma call_llm_Inl: "call_llm w pr provider m t = Inl e \<Longrightarrow> is_ReviewerError e"
  by (auto simp: call_llm_def Let_def split: sum.splits if_splits)

lemma call_llm_valid:
  "call_llm w pr provider m t = Inr found \<Longrightarrow> i \<in> set found \<Longrightarrow> valid_issue i"
  by (blast dest: call_llm_Inr parse_llm_output_valid)

lemma rule_issues_valid:
  assumes "run_all_rules d = Inr found" "i \<in> set found"
  shows "valid_issue i"
proof -
  from rule_issues_shape [OF assms]
  have s: "i = rule_issue (type i) (severity i) (message i) (confidence i)"
    and v: "severity i \<in> set [''low'', ''medium'', ''high'']" "0 \<le> confidence i" "confidence i \<le> 1"
    by simp_all
  from s have "action i = ''review''" by (metis rule_issue_sel(5))
  with v show ?thesis by (simp add: valid_issue_def)
qed

lemma tally_counts:
  "tally xs counts = Inr counts' \<Longrightarrow> counts k = Some n \<Longrightarrow>
     counts' k = Some (n + int (length (filter (\<lambda>i. severity i = k) xs)))"
proof (induction xs arbitrary: counts n)
  case Nil
  then show ?case by simp
next
  case (Cons x xs)
  from Cons.prems(1) obtain m where m: "counts (severity x) = Some m"
    and t: "tally xs (counts(severity x \<mapsto> m + 1)) = Inr counts'"
    by (auto split: option.splits)
  show ?case
  proof (cases "severity x = k")
    case True
    with m Cons.prems(2) have "(counts(severity x \<mapsto> m + 1)) k = Some (n + 1)" by simp
    from Cons.IH [OF t this] True show ?thesis by simp
  next
    case False
    with Cons.prems(2) have "(counts(severity x \<mapsto> m + 1)) k = Some n" by simp
    from Cons.IH [OF t this] False show ?thesis by simp
  qed
qed

lemma tally_total:
  "\<forall>i \<in> set xs. severity i \<in> dom counts \<Longrightarrow> \<exists>counts'. tally xs counts = Inr counts'"
proof (induction xs arbitrary: counts)
  case Nil
  then show ?case by simp
next
  case (Cons x xs)
  then obtain m where m: "counts (severity x) = Some m" by auto
  from Cons.prems have "\<forall>i \<in> set xs. severity i \<in> dom (counts(severity x \<mapsto> m + 1))" by auto
  from Cons.IH [OF this] obtain counts' where
    "tally xs (counts(severity x \<mapsto> m + 1)) = Inr counts'" by blast
  with m show ?case by simp
qed

lemma review_pr_with_eq:
  assumes r: "run_all_rules (diff pr) = Inr rule_issues"
    and l: "llm_step gateway pr use_llm provider model = Inr (llm_issues, used, name)"
    and v: "\<forall>i \<in> set llm_issues. valid_issue i"
  shows "review_pr_with gateway seconds pr use_llm provider model =
    Inr \<lparr>pr_number = PRDiff.pr_number pr,
         issues = rule_issues @ llm_issues,
         summary = \<lparr>total_issues = int (length (rule_issues @ llm_issues)),
                    high_severity = count_severity ''high'' (rule_issues @ llm_issues),
                    medium_severity = count_severity ''medium'' (rule_issues @ llm_issues),
                    low_severity = count_severity ''low'' (rule_issues @ llm_issues),
                    review_time_seconds = seconds,
                    llm_used = used,
                    model_name = name\<rparr>,
         metadata = [''prompt_version'' \<mapsto> Some PROMPT_VERSION,
                     ''llm_provider'' \<mapsto> (if used then Some provider else None)]\<rparr>"
proof -
  let ?all = "rule_issues @ llm_issues"
  let ?init = "[''low'' \<mapsto> 0, ''medium'' \<mapsto> 0, ''high'' \<mapsto> (0::int)]"
  have "\<forall>i \<in> set ?all. valid_issue i"
    using v rule_issues_valid [OF r] by auto
  then have "\<forall>i \<in> set ?all. severity i \<in> dom ?init"
    by (auto simp: valid_issue_def)
  from tally_total [OF this] obtain counts where t: "tally ?all ?init = Inr counts" by blast
  have h: "counts ''high'' = Some (count_severity ''high'' ?all)"
    using tally_counts [OF t, of "''high''" 0] by (simp add: count_severity_def)
  have m: "counts ''medium'' = Some (count_severity ''medium'' ?all)"
    using tally_counts [OF t, of "''medium''" 0] by (simp add: count_severity_def)
  have lo: "counts ''low'' = Some (count_severity ''low'' ?all)"
    using tally_counts [OF t, of "''low''" 0] by (simp add: count_severity_def)
  show ?thesis
    using r l t h m lo by (simp add: review_pr_with_def getitem_def Let_def)
qed

lemma llm_step_absorbs:
  assumes "gateway pr provider model = Inl e" "is_ReviewerError e"
  shows "llm_step gateway pr use_llm provider model = Inr ([], False, None)"
  using assms by (cases e) (simp_all add: llm_step_def)

lemma llm_step_call_llm:
  "llm_step (\<lambda>p provider model. call_llm w p provider model 30) pr use_llm provider model =
     Inr (if use_llm
          then (case call_llm w pr provider model 30 of
                  Inr found \<Rightarrow> (found, True, Some model)
                | Inl e \<Rightarrow> ([], False, None))
          else ([], False, None))"
proof (cases "call_llm w pr provider model 30")
  case (Inl e)
  from llm_step_absorbs [of "\<lambda>p provider model. call_llm w p provider model 30", OF Inl call_llm_Inl [OF Inl]]
  show ?thesis using Inl by (simp add: llm_step_def)
next
  case (Inr found)
  then show ?thesis by (simp add: llm_step_def)
qed

lemma strip_spec:
  assumes a: "\<forall>ch \<in> set a. isspace ch" and b: "\<forall>ch \<in> set b. isspace ch"
    and core: "core = [] \<or> (\<not> isspace (hd core) \<and> \<not> isspace (last core))"
  shows "strip (a @ core @ b) = core"
proof (cases "core = []")
  case True
  have "dropWhile isspace (a @ b) = dropWhile isspace b"
    by (rule dropWhile_append2) (use a in auto)
  also from b have "\<dots> = []" by (simp only: dropWhile_eq_Nil_conv)
  finally have z: "dropWhile isspace (a @ b) = []" .
  have "strip (a @ b) = rev (dropWhile isspace (rev (dropWhile isspace (a @ b))))"
    by (simp only: strip_def)
  also have "\<dots> = []" by (simp only: z rev.simps dropWhile.simps)
  finally show ?thesis using True by simp
next
  case False
  with core have h: "\<not> isspace (hd core)" and l: "\<not> isspace (last core)" by auto
  from False obtain x xs where x: "core = x # xs" by (cases core) auto
  have "dropWhile isspace (a @ core @ b) = dropWhile isspace (core @ b)"
    by (rule dropWhile_append2) (use a in auto)
  also have "\<dots> = core @ b" using h x by simp
  finally have 1: "dropWhile isspace (a @ core @ b) = core @ b" .
  have "dropWhile isspace (rev b @ rev core) = dropWhile isspace (rev core)"
    by (rule dropWhile_append2) (use b in auto)
  also have "\<dots> = rev core"
    using l False by (cases "rev core") (auto simp: last_rev hd_rev)
  finally have "dropWhile isspace (rev (core @ b)) = rev core" by simp
  with 1 show ?thesis by (simp add: strip_def)
qed

lemma str_field_Some: "str_field v = Some s \<longleftrightarrow> v = JStr s"
  by (cases v) auto

lemma required_str: "required kwargs k str_field = Some s \<longleftrightarrow> map_of kwargs k = Some (JStr s)"
  by (auto simp: required_def str_field_Some split: option.splits)

lemma required_float:
  "required kwargs k (float_field w) = Some r \<longleftrightarrow>
     (case map_of kwargs k of None \<Rightarrow> False | Some v \<Rightarrow> float_field w v = Some r)"
  by (auto simp: required_def split: option.splits)

lemma optional_int:
  "optional kwargs k (int_field w) = Some l \<longleftrightarrow>
     (case map_of kwargs k of
        None \<Rightarrow> l = None
      | Some JNull \<Rightarrow> l = None
      | Some v \<Rightarrow> (case int_field w v of None \<Rightarrow> False | Some n \<Rightarrow> l = Some n))"
  by (auto simp: optional_def split: option.splits json.splits)

lemma optional_str:
  "optional kwargs k str_field = Some f \<longleftrightarrow>
     (case map_of kwargs k of
        None \<Rightarrow> f = None
      | Some JNull \<Rightarrow> f = None
      | Some (JStr s) \<Rightarrow> f = Some s
      | Some v \<Rightarrow> False)"
  by (auto simp: optional_def split: option.splits json.splits)

lemma typed_fields_Some:
  "typed_fields w kwargs = Some (t, sev, msg, conf, act, l, f) \<longleftrightarrow>
     required kwargs ''type'' str_field = Some t \<and>
     required kwargs ''severity'' str_field = Some sev \<and>
     required kwargs ''message'' str_field = Some msg \<and>
     required kwargs ''confidence'' (float_field w) = Some conf \<and>
     required kwargs ''action'' str_field = Some act \<and>
     optional kwargs ''line_number'' (int_field w) = Some l \<and>
     optional kwargs ''file_path'' str_field = Some f"
  by (auto simp: typed_fields_def Option.bind_eq_Some_conv)

lemma new_Issue_iff:
  "new_Issue t sev msg conf act l f = Inr i \<longleftrightarrow>
     type i = t \<and> severity i = sev \<and> message i = msg \<and> confidence i = conf \<and>
     action i = act \<and> line_number i = l \<and> file_path i = f \<and>
     sev \<in> set [''low'', ''medium'', ''high''] \<and> 0 \<le> conf \<and> conf \<le> 1 \<and>
     act \<in> set [''review'', ''ignore'']"
  by (cases i) (auto simp: new_Issue_def)

lemma Issue_of_item_iff: "Issue_of_item w item = Inr i \<longleftrightarrow> schema_accepts w item i"
proof (cases item)
  case (JDict kwargs)
  have "Issue_of_item w item = Inr i \<longleftrightarrow>
      (\<exists>t sev msg conf act l f. typed_fields w kwargs = Some (t, sev, msg, conf, act, l, f) \<and>
         new_Issue t sev msg conf act l f = Inr i)"
    using JDict by (auto simp: Issue_of_item_def split: option.splits)
  also have "\<dots> \<longleftrightarrow> schema_accepts w item i"
    unfolding typed_fields_Some new_Issue_iff required_str required_float optional_int optional_str
    using JDict by (auto simp: schema_accepts_def)
  finally show ?thesis .
qed (simp_all add: Issue_of_item_def schema_accepts_def)

lemma startswith_length: "startswith s p \<Longrightarrow> length p \<le> length s"
  by (induction s p rule: startswith.induct) auto

lemma contains_length: "contains s p \<Longrightarrow> length p \<le> length s"
  by (induction s) (auto dest: startswith_length)

lemma startswith_prefix: "startswith x p \<Longrightarrow> startswith (x @ y) p"
  by (induction x p rule: startswith.induct) auto

lemma split_no_separator: "\<not> contains s sep \<Longrightarrow> split s sep = [s]"
  by (induction s) auto

lemma first_occurrence:
  assumes "sep \<noteq> []" "contains t sep"
  shows "\<exists>body rest. t = body @ sep @ rest \<and> \<not> contains (body @ butlast sep) sep"
  using assms(2)
proof (induction t)
  case Nil
  with assms(1) show ?case by simp
next
  case (Cons c cs)
  show ?case
  proof (cases "startswith (c # cs) sep")
    case True
    then have "c # cs = [] @ sep @ drop (length sep) (c # cs)"
      by (metis startswith_take append_Nil append_take_drop_id)
    moreover have "\<not> contains ([] @ butlast sep) sep"
      using contains_length [of "butlast sep" sep] assms(1) by (cases sep) auto
    ultimately show ?thesis by blast
  next
    case False
    with Cons.prems have "contains cs sep" by simp
    from Cons.IH [OF this] obtain body rest where
      b: "cs = body @ sep @ rest" "\<not> contains (body @ butlast sep) sep" by blast
    have "\<not> startswith ((c # body) @ butlast sep) sep"
    proof
      assume "startswith ((c # body) @ butlast sep) sep"
      from startswith_prefix [OF this, of "last sep # rest"]
      have "startswith ((c # body) @ (butlast sep @ [last sep]) @ rest) sep" by simp
      then have "startswith (c # cs) sep"
        using b(1) assms(1) by (simp only: append_butlast_last_id) simp
      with False show False ..
    qed
    with b(2) have "\<not> contains ((c # body) @ butlast sep) sep" by simp
    moreover have "c # cs = (c # body) @ sep @ rest" using b(1) by simp
    ultimately show ?thesis by blast
  qed
qed

lemma unfence_unclosed:
  assumes "strip content = fence @ body" "\<not> contains body fence"
  shows "unfence content = Inr (if startswith body ''json'' then drop 4 body else body)"
proof -
  have s: "startswith (strip content) fence"
    unfolding assms(1) using startswith_append [of fence body] by simp
  have "split (fence @ body) fence = [] # split body fence"
    using split_first_occurrence [of fence "[]" body] by (simp add: fence_def)
  with split_no_separator [OF assms(2)] have "split (strip content) fence = [[], body]"
    by (simp add: assms(1))
  with s show ?thesis by (simp add: unfence_def Let_def)
qed

lemma fence_cases:
  "\<not> startswith s fence \<or>
   (\<exists>body rest. s = fence @ body @ fence @ rest \<and> fence_free body) \<or>
   (\<exists>body. s = fence @ body \<and> \<not> contains body fence)"
proof (cases "startswith s fence")
  case False
  then show ?thesis by simp
next
  case True
  then have s: "s = fence @ drop (length fence) s"
    by (metis startswith_take append_take_drop_id)
  show ?thesis
  proof (cases "contains (drop (length fence) s) fence")
    case False
    with s show ?thesis by blast
  next
    case c: True
    from first_occurrence [OF fence_nonempty c] obtain body rest where
      "drop (length fence) s = body @ fence @ rest" "\<not> contains (body @ butlast fence) fence"
      by blast
    moreover have "butlast fence = ''``''" by (simp add: fence_def)
    ultimately have "s = fence @ body @ fence @ rest \<and> fence_free body"
      using s by (simp add: fence_free_def)
    then show ?thesis by blast
  qed
qed

text \<open>
  C3, as the code has it. \<open>_parse_llm_output\<close> removes the whitespace at both ends of the
  reply. A reply that then does not begin with a fence is parsed as it is. Of a reply that
  begins with a fence, the text between this fence and the next one is taken, or the text
  to the end when no further fence follows, and a leading \<open>json\<close> is removed from it; no
  other language tag is removed. These three cases cover every reply. With \<open>c\<close> the text
  so obtained: the call fails, with \<open>LLMInvalidOutputError\<close>, exactly when \<open>json.loads\<close> raises
  on \<open>c\<close> or returns a value that is not a list; otherwise it returns the elements that the
  schema of \<open>Issue\<close> accepts and whose confidence is at least 0.7, in the order of the array,
  and an empty list when none is left. The schema accepts an element exactly as
  \<open>schema_accepts\<close> says.
\<close>

theorem parse_llm_output_amended:
  "(\<forall>a core b. content = a @ core @ b \<and> (\<forall>ch \<in> set a. isspace ch) \<and> (\<forall>ch \<in> set b. isspace ch) \<and>
        (core = [] \<or> (\<not> isspace (hd core) \<and> \<not> isspace (last core))) \<longrightarrow> strip content = core) \<and>
   (\<exists>c. unfence content = Inr c \<and>
     (\<not> startswith (strip content) fence \<longrightarrow> c = strip content) \<and>
     (\<forall>body rest. strip content = fence @ ''json'' @ body @ fence @ rest \<and>
                  fence_free body \<longrightarrow> c = body) \<and>
     (\<forall>body rest. strip content = fence @ body @ fence @ rest \<and> fence_free body \<longrightarrow>
                  c = (if startswith body ''json'' then drop 4 body else body)) \<and>
     (\<forall>body. strip content = fence @ body \<and> \<not> contains body fence \<longrightarrow>
                  c = (if startswith body ''json'' then drop 4 body else body)) \<and>
     (\<not> startswith (strip content) fence \<or>
      (\<exists>body rest. strip content = fence @ body @ fence @ rest \<and> fence_free body) \<or>
      (\<exists>body. strip content = fence @ body \<and> \<not> contains body fence)) \<and>
     (case json_loads w c of
        Inr (JList items) \<Rightarrow>
          parse_llm_output w content =
            Inr (filter (\<lambda>i. confidence i \<ge> 7 / 10)
                   (concat (map (\<lambda>item. case Issue_of_item w item of
                                            Inl e \<Rightarrow> [] | Inr i \<Rightarrow> [i]) items)))
      | _ \<Rightarrow> \<exists>m. parse_llm_output w content = Inl (LLMInvalidOutputError m))) \<and>
   (\<forall>item i. Issue_of_item w item = Inr i \<longleftrightarrow> schema_accepts w item i)"
proof -
  obtain c where c: "unfence content = Inr c" using unfence_total by blast
  have 1: "\<not> startswith (strip content) fence \<longrightarrow> c = strip content"
    using c unfence_plain [of content] by auto
  have 2: "\<forall>body rest. strip content = fence @ ''json'' @ body @ fence @ rest \<and>
                  fence_free body \<longrightarrow> c = body"
    using c unfence_fenced_json [of content] by auto
  have 3: "\<forall>body rest. strip content = fence @ body @ fence @ rest \<and> fence_free body \<longrightarrow>
                  c = (if startswith body ''json'' then drop 4 body else body)"
    using c unfence_fenced [of content] by auto
  have 4: "\<forall>body. strip content = fence @ body \<and> \<not> contains body fence \<longrightarrow>
                  c = (if startswith body ''json'' then drop 4 body else body)"
    using c unfence_unclosed [of content] by auto
  have 5: "\<not> startswith (strip content) fence \<or>
      (\<exists>body rest. strip content = fence @ body @ fence @ rest \<and> fence_free body) \<or>
      (\<exists>body. strip content = fence @ body \<and> \<not> contains body fence)"
    by (rule fence_cases)
  have 6: "(case json_loads w c of
        Inr (JList items) \<Rightarrow>
          parse_llm_output w content =
            Inr (filter (\<lambda>i. confidence i \<ge> 7 / 10)
                   (concat (map (\<lambda>item. case Issue_of_item w item of
                                            Inl e \<Rightarrow> [] | Inr i \<Rightarrow> [i]) items)))
      | _ \<Rightarrow> \<exists>m. parse_llm_output w content = Inl (LLMInvalidOutputError m))"
    unfolding parse_llm_output_eq [OF c]
    by (simp add: survivors_def split: sum.splits json.splits exn.splits)
  have 0: "\<forall>a core b. content = a @ core @ b \<and> (\<forall>ch \<in> set a. isspace ch) \<and> (\<forall>ch \<in> set b. isspace ch) \<and>
        (core = [] \<or> (\<not> isspace (hd core) \<and> \<not> isspace (last core))) \<longrightarrow> strip content = core"
    using strip_spec by blast
  have 7: "\<forall>item i. Issue_of_item w item = Inr i \<longleftrightarrow> schema_accepts w item i"
    using Issue_of_item_iff by blast
  from c 1 2 3 4 5 6 have "\<exists>c. unfence content = Inr c \<and>
     (\<not> startswith (strip content) fence \<longrightarrow> c = strip content) \<and>
     (\<forall>body rest. strip content = fence @ ''json'' @ body @ fence @ rest \<and>
                  fence_free body \<longrightarrow> c = body) \<and>
     (\<forall>body rest. strip content = fence @ body @ fence @ rest \<and> fence_free body \<longrightarrow>
                  c = (if startswith body ''json'' then drop 4 body else body)) \<and>
     (\<forall>body. strip content = fence @ body \<and> \<not> contains body fence \<longrightarrow>
                  c = (if startswith body ''json'' then drop 4 body else body)) \<and>
     (\<not> startswith (strip content) fence \<or>
      (\<exists>body rest. strip content = fence @ body @ fence @ rest \<and> fence_free body) \<or>
      (\<exists>body. strip content = fence @ body \<and> \<not> contains body fence)) \<and>
     (case json_loads w c of
        Inr (JList items) \<Rightarrow>
          parse_llm_output w content =
            Inr (filter (\<lambda>i. confidence i \<ge> 7 / 10)
                   (concat (map (\<lambda>item. case Issue_of_item w item of
                                            Inl e \<Rightarrow> [] | Inr i \<Rightarrow> [i]) items)))
      | _ \<Rightarrow> \<exists>m. parse_llm_output w content = Inl (LLMInvalidOutputError m))"
    by (intro exI [of _ c] conjI)
  with 0 7 show ?thesis by (intro conjI)
qed

lemma backquote_no_space: "\<not> isspace (CHR ''`'')" "isspace (CHR '' '')" "isspace (CHR ''\<newline>'')"
  by code_simp+

lemma strip_bare_fence_reply: "strip bare_fence_reply = fence @ sample_array_text @ fence @ []"
  by code_simp

lemma sample_body_facts:
  "fence_free sample_array_text" "\<not> startswith sample_array_text ''json''"
  "\<not> startswith (strip plain_reply) fence" "\<not> startswith (strip ''not json'') fence"
  "\<not> startswith (strip ''{\"not\": \"an array\"}'') fence"
  by code_simp+

lemma sample_loads:
  "json_loads sample_externals sample_array_text = Inr sample_array"
  "json_loads sample_externals (strip plain_reply) = Inr sample_array"
  "json_loads sample_externals (strip ''not json'') = Inl (JSONDecodeError ''Expecting value'')"
  "json_loads sample_externals (strip ''{\"not\": \"an array\"}'') = Inr (JDict [(''not'', JStr ''an array'')])"
  by code_simp+

lemma sample_survivors:
  "filter (\<lambda>i. confidence i \<ge> 7 / 10)
     (concat (map (\<lambda>item. case Issue_of_item sample_externals item of
                              Inl e \<Rightarrow> [] | Inr i \<Rightarrow> [i]) sample_elements)) = [sample_issue]"
  by code_simp

lemma unclosed_facts:
  "strip unclosed_reply = fence @ (''json'' @ strip sample_array_text)"
  "\<not> contains (''json'' @ strip sample_array_text) fence"
  "startswith (''json'' @ strip sample_array_text) ''json''"
  "drop 4 (''json'' @ strip sample_array_text) = strip plain_reply"
  "schema_accepts sample_externals (hd sample_elements) sample_issue"
  by code_simp+

theorem parse_llm_output_amended_witness:
  "parse_llm_output sample_externals sample_reply = Inr [sample_issue] \<and>
   parse_llm_output sample_externals bare_fence_reply = Inr [sample_issue] \<and>
   parse_llm_output sample_externals unclosed_reply = Inr [sample_issue] \<and>
   parse_llm_output sample_externals plain_reply = Inr [sample_issue] \<and>
   (\<exists>m. parse_llm_output sample_externals ''not json'' = Inl (LLMInvalidOutputError m)) \<and>
   (\<exists>m. parse_llm_output sample_externals ''{\"not\": \"an array\"}'' = Inl (LLMInvalidOutputError m)) \<and>
   Issue_of_item sample_externals (hd sample_elements) = Inr sample_issue"
proof -
  let ?result = "\<lambda>content c. case json_loads sample_externals c of
        Inr (JList items) \<Rightarrow>
          parse_llm_output sample_externals content =
            Inr (filter (\<lambda>i. confidence i \<ge> 7 / 10)
                   (concat (map (\<lambda>item. case Issue_of_item sample_externals item of
                                            Inl e \<Rightarrow> [] | Inr i \<Rightarrow> [i]) items)))
      | _ \<Rightarrow> \<exists>m. parse_llm_output sample_externals content = Inl (LLMInvalidOutputError m)"
  have a: "parse_llm_output sample_externals sample_reply = Inr [sample_issue]"
  proof -
    from parse_llm_output_amended [of sample_reply sample_externals] obtain c where
      p: "\<forall>body rest. strip sample_reply = fence @ ''json'' @ body @ fence @ rest \<and>
            fence_free body \<longrightarrow> c = body"
      and r: "?result sample_reply c" by blast
    from parse_llm_output_amended [of sample_reply sample_externals]
    have "\<forall>a core b. sample_reply = a @ core @ b \<and> (\<forall>ch \<in> set a. isspace ch) \<and>
        (\<forall>ch \<in> set b. isspace ch) \<and>
        (core = [] \<or> (\<not> isspace (hd core) \<and> \<not> isspace (last core))) \<longrightarrow>
        strip sample_reply = core"
      by (rule conjunct1)
    from this [rule_format, of "''  ''" "fence @ ''json'' @ sample_array_text @ fence" "''\<newline>''"]
    have strip_sample_reply: "strip sample_reply = fence @ ''json'' @ sample_array_text @ fence @ []"
      using backquote_no_space by (simp add: sample_reply_def fence_def)
    from p strip_sample_reply sample_body_facts(1) have "c = sample_array_text" by blast
    with r sample_loads(1) sample_survivors show ?thesis by (simp add: sample_array_def)
  qed
  have b: "parse_llm_output sample_externals bare_fence_reply = Inr [sample_issue]"
  proof -
    from parse_llm_output_amended [of bare_fence_reply sample_externals] obtain c where
      p: "\<forall>body rest. strip bare_fence_reply = fence @ body @ fence @ rest \<and> fence_free body \<longrightarrow>
            c = (if startswith body ''json'' then drop 4 body else body)"
      and r: "?result bare_fence_reply c" by blast
    from p strip_bare_fence_reply sample_body_facts(1)
    have "c = (if startswith sample_array_text ''json'' then drop 4 sample_array_text
               else sample_array_text)" by blast
    with sample_body_facts(2) have "c = sample_array_text" by simp
    with r sample_loads(1) sample_survivors show ?thesis by (simp add: sample_array_def)
  qed
  have u: "parse_llm_output sample_externals unclosed_reply = Inr [sample_issue]"
  proof -
    from parse_llm_output_amended [of unclosed_reply sample_externals] obtain c where
      p: "\<forall>body. strip unclosed_reply = fence @ body \<and> \<not> contains body fence \<longrightarrow>
            c = (if startswith body ''json'' then drop 4 body else body)"
      and r: "?result unclosed_reply c" by blast
    from p unclosed_facts(1,2)
    have "c = (if startswith (''json'' @ strip sample_array_text) ''json''
               then drop 4 (''json'' @ strip sample_array_text)
               else ''json'' @ strip sample_array_text)" by blast
    with unclosed_facts(3,4) have "c = strip plain_reply" by simp
    with r sample_loads(2) sample_survivors show ?thesis by (simp add: sample_array_def)
  qed
  have c: "parse_llm_output sample_externals plain_reply = Inr [sample_issue]"
  proof -
    from parse_llm_output_amended [of plain_reply sample_externals] obtain c where
      p: "\<not> startswith (strip plain_reply) fence \<longrightarrow> c = strip plain_reply"
      and r: "?result plain_reply c" by blast
    from p sample_body_facts(3) have "c = strip plain_reply" by blast
    with r sample_loads(2) sample_survivors show ?thesis by (simp add: sample_array_def)
  qed
  have d: "\<exists>m. parse_llm_output sample_externals ''not json'' = Inl (LLMInvalidOutputError m)"
  proof -
    from parse_llm_output_amended [of "''not json''" sample_externals] obtain c where
      p: "\<not> startswith (strip ''not json'') fence \<longrightarrow> c = strip ''not json''"
      and r: "?result ''not json'' c" by blast
    from p sample_body_facts(4) have "c = strip ''not json''" by blast
    with r sample_loads(3) show ?thesis by simp
  qed
  have e: "\<exists>m. parse_llm_output sample_externals ''{\"not\": \"an array\"}'' = Inl (LLMInvalidOutputError m)"
  proof -
    from parse_llm_output_amended [of "''{\"not\": \"an array\"}''" sample_externals] obtain c where
      p: "\<not> startswith (strip ''{\"not\": \"an array\"}'') fence \<longrightarrow> c = strip ''{\"not\": \"an array\"}''"
      and r: "?result ''{\"not\": \"an array\"}'' c" by blast
    from p sample_body_facts(5) have "c = strip ''{\"not\": \"an array\"}''" by blast
    with r sample_loads(4) show ?thesis by simp
  qed
  have f: "Issue_of_item sample_externals (hd sample_elements) = Inr sample_issue"
  proof -
    from parse_llm_output_amended [of "[]" sample_externals]
    have "\<forall>item i. Issue_of_item sample_externals item = Inr i \<longleftrightarrow>
        schema_accepts sample_externals item i" by blast
    with unclosed_facts(5) show ?thesis by blast
  qed
  from a b u c d e f show ?thesis by (intro conjI)
qed

text \<open>
  C3, as the claim states it, fails on a reply whose fence carries another language tag:
  the empty array in a fence tagged \<open>python\<close> is a valid array once the fence and the tag
  are removed, and \<open>json.loads\<close> accepts it, but the code hands the text with its tag to
  \<open>json.loads\<close> and raises \<open>LLMInvalidOutputError\<close>.
\<close>

theorem parse_llm_output_language_tag_counterexample:
  "strip python_reply = fence @ ''python'' @ ''\<newline>[]\<newline>'' @ fence \<and>
   json_loads sample_externals ''\<newline>[]\<newline>'' = Inr (JList []) \<and>
   unfence python_reply = Inr ''python\<newline>[]\<newline>'' \<and>
   parse_llm_output sample_externals python_reply =
     Inl (LLMInvalidOutputError ''LLM output is not valid JSON'')"
  by code_simp

subsection \<open>Orchestrator\<close>

lemma review_pr_eq:
  assumes r: "run_all_rules (diff pr) = Inr rule_issues"
  shows "\<exists>llm_issues used name.
    (llm_issues, used, name) =
       (if use_llm
        then (case call_llm w pr provider model 30 of
                Inr found \<Rightarrow> (found, True, Some model)
              | Inl e \<Rightarrow> ([], False, None))
        else ([], False, None)) \<and>
    review_pr w pr use_llm provider model =
    Inr \<lparr>pr_number = PRDiff.pr_number pr,
         issues = rule_issues @ llm_issues,
         summary = \<lparr>total_issues = int (length (rule_issues @ llm_issues)),
                    high_severity = count_severity ''high'' (rule_issues @ llm_issues),
                    medium_severity = count_severity ''medium'' (rule_issues @ llm_issues),
                    low_severity = count_severity ''low'' (rule_issues @ llm_issues),
                    review_time_seconds = elapsed w,
                    llm_used = used,
                    model_name = name\<rparr>,
         metadata = [''prompt_version'' \<mapsto> Some PROMPT_VERSION,
                     ''llm_provider'' \<mapsto> (if used then Some provider else None)]\<rparr>"
proof -
  obtain llm_issues used name where t: "(llm_issues, used, name) =
       (if use_llm
        then (case call_llm w pr provider model 30 of
                Inr found \<Rightarrow> (found, True, Some model)
              | Inl e \<Rightarrow> ([], False, None))
        else ([], False, None))"
    by (metis prod_cases3)
  then have l: "llm_step (\<lambda>p provider model. call_llm w p provider model 30) pr use_llm provider model
      = Inr (llm_issues, used, name)"
    by (simp only: llm_step_call_llm)
  have v: "\<forall>i \<in> set llm_issues. valid_issue i"
    using t call_llm_valid [of w pr provider model 30]
    by (auto split: if_splits sum.splits)
  from review_pr_with_eq [OF r l v, where seconds = "elapsed w"] t show ?thesis
    unfolding review_pr_def by blast
qed

subsection \<open>Sample runs\<close>

lemma demo_pr_diff: "diff demo_pr = demo_diff"
  by (simp add: demo_pr_def)

lemma openai_without_key:
  "call_llm sample_externals demo_pr ''openai'' ''gpt-4'' 30 =
     Inl (ReviewerError ''OpenAI API error: OPENAI_API_KEY not set'')"
  by code_simp

lemma demo_rule_issues:
  "run_all_rules demo_diff =
     Inr [rule_issue ''security'' ''high'' ''Use of eval() detected'' 1,
          rule_issue ''style'' ''low''
            ''Star import (import *) detected. Consider explicit imports.'' (9 / 10)]"
  by code_simp

lemma sample_element_accepted: "Issue_of_item sample_externals (hd sample_elements) = Inr sample_issue"
  by code_simp

lemma local_reply: "call_llm sample_externals demo_pr ''local'' ''llama'' 30 = Inr [sample_issue]"
  by code_simp

lemma demo_diff_contents:
  "re_search True secret_key_pattern demo_diff"
  "re_search True eval_pattern demo_diff"
  "re_search True md5_pattern demo_diff"
  "re_search False star_import_pattern demo_diff"
  by code_simp+

lemma api_demo_counts:
  "(case api_run_review demo_diff of
      Inr (found, counts) \<Rightarrow>
        length found = 4 \<and> counts ''high'' = Some 3 \<and> counts ''medium'' = Some 0 \<and>
        counts ''low'' = Some 1
    | Inl e \<Rightarrow> False)"
  by code_simp

subsection \<open>Failures of the gateway\<close>

text \<open>
  C2. A failure of the gateway of kind \<open>LLMTimeoutError\<close> (Timeout),
  \<open>LLMInvalidOutputError\<close> (InvalidOutput) or \<open>ReviewerError\<close> (ProviderError) does not pass
  \<open>review_pr\<close>: for any gateway that fails so, \<open>review_pr\<close> returns an output whose summary has
  \<open>llm_used = False\<close> and whose issues are the issues of the rule engine for the diff.
  \<open>call_llm\<close> fails with these kinds only, and \<open>review_pr\<close> returns an output for every
  request, whether the LLM is asked or not.
\<close>

theorem llm_failure_absorbed:
  "(gateway pr provider model = Inl e \<and> is_ReviewerError e \<longrightarrow>
      (\<exists>out. review_pr_with gateway seconds pr True provider model = Inr out \<and>
         llm_used (summary out) = False \<and> run_all_rules (diff pr) = Inr (issues out))) \<and>
   (call_llm w pr provider model 30 = Inl e \<longrightarrow>
      is_ReviewerError e \<and>
      (\<exists>out. review_pr w pr True provider model = Inr out \<and>
         llm_used (summary out) = False \<and> run_all_rules (diff pr) = Inr (issues out))) \<and>
   (\<exists>out. review_pr w pr use_llm provider model = Inr out)"
proof -
  obtain rule_issues where r: "run_all_rules (diff pr) = Inr rule_issues"
    using run_all_rules_eq [of "diff pr"] by blast
  have 1: "\<exists>out. review_pr_with gateway seconds pr True provider model = Inr out \<and>
         llm_used (summary out) = False \<and> run_all_rules (diff pr) = Inr (issues out)"
    if "gateway pr provider model = Inl e" "is_ReviewerError e"
  proof -
    have l: "llm_step gateway pr True provider model = Inr ([], False, None)"
      using that by (rule llm_step_absorbs)
    from review_pr_with_eq [OF r l, where seconds = seconds] r show ?thesis by simp
  qed
  have 2: "is_ReviewerError e \<and>
      (\<exists>out. review_pr w pr True provider model = Inr out \<and>
         llm_used (summary out) = False \<and> run_all_rules (diff pr) = Inr (issues out))"
    if f: "call_llm w pr provider model 30 = Inl e"
  proof -
    from review_pr_eq [OF r, where use_llm = True and w = w and provider = provider and model = model] f r
    have "\<exists>out. review_pr w pr True provider model = Inr out \<and>
         llm_used (summary out) = False \<and> run_all_rules (diff pr) = Inr (issues out)"
      by auto
    with call_llm_Inl [OF f] show ?thesis by simp
  qed
  have 3: "\<exists>out. review_pr w pr use_llm provider model = Inr out"
    using review_pr_eq [OF r, where use_llm = use_llm and w = w and provider = provider and model = model]
    by blast
  from 1 2 3 show ?thesis by blast
qed

theorem llm_failure_absorbed_witness:
  "(\<exists>out. review_pr_with (\<lambda>p provider model. Inl (LLMTimeoutError ''OpenAI API timeout'')) 0
              demo_pr True ''openai'' ''gpt-4'' = Inr out \<and>
      llm_used (summary out) = False \<and> run_all_rules demo_diff = Inr (issues out)) \<and>
   (\<exists>out. review_pr_with (\<lambda>p provider model. Inl (LLMInvalidOutputError ''LLM output is not valid JSON'')) 0
              demo_pr True ''openai'' ''gpt-4'' = Inr out \<and>
      llm_used (summary out) = False \<and> run_all_rules demo_diff = Inr (issues out)) \<and>
   (\<exists>out. review_pr_with (\<lambda>p provider model. Inl (ReviewerError ''LLM call failed'')) 0
              demo_pr True ''openai'' ''gpt-4'' = Inr out \<and>
      llm_used (summary out) = False \<and> run_all_rules demo_diff = Inr (issues out)) \<and>
   (\<exists>out. review_pr sample_externals demo_pr True ''openai'' ''gpt-4'' = Inr out \<and>
      llm_used (summary out) = False \<and> run_all_rules demo_diff = Inr (issues out))"
proof -
  note t = llm_failure_absorbed [where pr = demo_pr and provider = "''openai''" and model = "''gpt-4''"
      and seconds = 0 and w = sample_externals and use_llm = True]
  have a: "\<exists>out. review_pr_with (\<lambda>p provider model. Inl (LLMTimeoutError ''OpenAI API timeout'')) 0
              demo_pr True ''openai'' ''gpt-4'' = Inr out \<and>
      llm_used (summary out) = False \<and> run_all_rules demo_diff = Inr (issues out)"
    using t [where gateway = "\<lambda>p provider model. Inl (LLMTimeoutError ''OpenAI API timeout'')"
        and e = "LLMTimeoutError ''OpenAI API timeout''"]
    by (simp add: demo_pr_diff)
  have b: "\<exists>out. review_pr_with (\<lambda>p provider model. Inl (LLMInvalidOutputError ''LLM output is not valid JSON'')) 0
              demo_pr True ''openai'' ''gpt-4'' = Inr out \<and>
      llm_used (summary out) = False \<and> run_all_rules demo_diff = Inr (issues out)"
    using t [where gateway = "\<lambda>p provider model. Inl (LLMInvalidOutputError ''LLM output is not valid JSON'')"
        and e = "LLMInvalidOutputError ''LLM output is not valid JSON''"]
    by (simp add: demo_pr_diff)
  have c: "\<exists>out. review_pr_with (\<lambda>p provider model. Inl (ReviewerError ''LLM call failed'')) 0
              demo_pr True ''openai'' ''gpt-4'' = Inr out \<and>
      llm_used (summary out) = False \<and> run_all_rules demo_diff = Inr (issues out)"
    using t [where gateway = "\<lambda>p provider model. Inl (ReviewerError ''LLM call failed'')"
        and e = "ReviewerError ''LLM call failed''"]
    by (simp add: demo_pr_diff)
  have d: "\<exists>out. review_pr sample_externals demo_pr True ''openai'' ''gpt-4'' = Inr out \<and>
      llm_used (summary out) = False \<and> run_all_rules demo_diff = Inr (issues out)"
    using t [where gateway = "\<lambda>p provider model. call_llm sample_externals p provider model 30"
        and e = "ReviewerError ''OpenAI API error: OPENAI_API_KEY not set''"] openai_without_key
    by (simp add: demo_pr_diff)
  from a b c d show ?thesis by blast
qed

subsection \<open>The issues of a report\<close>

text \<open>
  C8. Every issue in the output of \<open>review_pr\<close>, from the rule engine or from the reply of
  the model, has a confidence in \<open>[0, 1]\<close>, a severity among \<open>low\<close>, \<open>medium\<close>, \<open>high\<close> and
  an action among \<open>review\<close>, \<open>ignore\<close>. The same holds for every issue that
  \<open>_parse_llm_output\<close> returns and for every element that \<open>Issue\<close> accepts, so an element
  outside these constraints does not reach the report.
\<close>

theorem report_issues_valid:
  "(\<exists>out. review_pr w pr use_llm provider model = Inr out \<and>
      (\<forall>i \<in> set (issues out).
         0 \<le> confidence i \<and> confidence i \<le> 1 \<and>
         severity i \<in> {''low'', ''medium'', ''high''} \<and>
         action i \<in> {''review'', ''ignore''})) \<and>
   (\<forall>found. parse_llm_output w content = Inr found \<longrightarrow>
      (\<forall>i \<in> set found.
         0 \<le> confidence i \<and> confidence i \<le> 1 \<and>
         severity i \<in> {''low'', ''medium'', ''high''} \<and>
         action i \<in> {''review'', ''ignore''})) \<and>
   (\<forall>i. Issue_of_item w item = Inr i \<longrightarrow>
         0 \<le> confidence i \<and> confidence i \<le> 1 \<and>
         severity i \<in> {''low'', ''medium'', ''high''} \<and>
         action i \<in> {''review'', ''ignore''})"
proof -
  have v: "valid_issue i \<Longrightarrow> 0 \<le> confidence i \<and> confidence i \<le> 1 \<and>
         severity i \<in> {''low'', ''medium'', ''high''} \<and>
         action i \<in> {''review'', ''ignore''}" for i
    by (simp add: valid_issue_def)
  obtain rule_issues where r: "run_all_rules (diff pr) = Inr rule_issues"
    using run_all_rules_eq [of "diff pr"] by blast
  from review_pr_eq [OF r, where use_llm = use_llm and w = w and provider = provider and model = model]
  obtain llm_issues used name out where
    l: "(llm_issues, used, name) =
       (if use_llm
        then (case call_llm w pr provider model 30 of
                Inr found \<Rightarrow> (found, True, Some model)
              | Inl e \<Rightarrow> ([], False, None))
        else ([], False, None))"
    and out: "review_pr w pr use_llm provider model = Inr out"
    and iss: "issues out = rule_issues @ llm_issues"
    by force
  have "\<forall>i \<in> set llm_issues. valid_issue i"
    using l call_llm_valid [of w pr provider model 30]
    by (auto split: if_splits sum.splits)
  with rule_issues_valid [OF r] iss have "\<forall>i \<in> set (issues out). valid_issue i"
    by auto
  with out v have 1: "\<exists>out. review_pr w pr use_llm provider model = Inr out \<and>
      (\<forall>i \<in> set (issues out).
         0 \<le> confidence i \<and> confidence i \<le> 1 \<and>
         severity i \<in> {''low'', ''medium'', ''high''} \<and>
         action i \<in> {''review'', ''ignore''})"
    by blast
  have 2: "\<forall>found. parse_llm_output w content = Inr found \<longrightarrow>
      (\<forall>i \<in> set found.
         0 \<le> confidence i \<and> confidence i \<le> 1 \<and>
         severity i \<in> {''low'', ''medium'', ''high''} \<and>
         action i \<in> {''review'', ''ignore''})"
    using parse_llm_output_valid v by blast
  have 3: "\<forall>i. Issue_of_item w item = Inr i \<longrightarrow>
         0 \<le> confidence i \<and> confidence i \<le> 1 \<and>
         severity i \<in> {''low'', ''medium'', ''high''} \<and>
         action i \<in> {''review'', ''ignore''}"
    using Issue_of_item_valid v by blast
  from 1 2 3 show ?thesis by blast
qed

theorem report_issues_valid_witness:
  "(\<exists>out. review_pr sample_externals demo_pr True ''local'' ''llama'' = Inr out \<and>
      length (issues out) = 3 \<and> sample_issue \<in> set (issues out)) \<and>
   0 \<le> confidence sample_issue \<and> confidence sample_issue \<le> 1 \<and>
   severity sample_issue \<in> {''low'', ''medium'', ''high''} \<and>
   action sample_issue \<in> {''review'', ''ignore''}"
proof -
  note t = report_issues_valid [of sample_externals demo_pr True "''local''" "''llama''"
      sample_reply "hd sample_elements"]
  from t sample_element_accepted
  have v: "0 \<le> confidence sample_issue \<and> confidence sample_issue \<le> 1 \<and>
      severity sample_issue \<in> {''low'', ''medium'', ''high''} \<and>
      action sample_issue \<in> {''review'', ''ignore''}"
    by blast
  obtain rule_issues where r: "run_all_rules (diff demo_pr) = Inr rule_issues"
    using run_all_rules_eq [of "diff demo_pr"] by blast
  from review_pr_eq [OF r, where use_llm = True and w = sample_externals
      and provider = "''local''" and model = "''llama''"] local_reply
  obtain out where out: "review_pr sample_externals demo_pr True ''local'' ''llama'' = Inr out"
    and iss: "issues out = rule_issues @ [sample_issue]"
    by force
  from r demo_rule_issues have "length rule_issues = 2" by (auto simp: demo_pr_diff)
  with out iss v show ?thesis by simp
qed

subsection \<open>The shape of a report\<close>

text \<open>
  C9. The output of \<open>review_pr\<close> lists the issues of the rule engine, then the issues of
  the model (none when the LLM is not asked or the gateway fails), each in its own order.
  \<open>total_issues\<close> is the length of that list, and \<open>high_severity\<close>, \<open>medium_severity\<close> and
  \<open>low_severity\<close> count its issues of that severity. The metadata hold the prompt version
  \<open>v1.0\<close> under \<open>prompt_version\<close> and, under \<open>llm_provider\<close>, the provider when the LLM was
  used and \<open>None\<close> otherwise.
\<close>

theorem review_output_shape:
  "\<exists>out rule_issues llm_issues.
     review_pr w pr use_llm provider model = Inr out \<and>
     run_all_rules (diff pr) = Inr rule_issues \<and>
     llm_issues = (if use_llm
                   then (case call_llm w pr provider model 30 of
                           Inr found \<Rightarrow> found | Inl e \<Rightarrow> [])
                   else []) \<and>
     issues out = rule_issues @ llm_issues \<and>
     ReviewOutput.pr_number out = PRDiff.pr_number pr \<and>
     llm_used (summary out) = (use_llm \<and> (\<exists>found. call_llm w pr provider model 30 = Inr found)) \<and>
     total_issues (summary out) = int (length (issues out)) \<and>
     high_severity (summary out) = int (length (filter (\<lambda>i. severity i = ''high'') (issues out))) \<and>
     medium_severity (summary out) = int (length (filter (\<lambda>i. severity i = ''medium'') (issues out))) \<and>
     low_severity (summary out) = int (length (filter (\<lambda>i. severity i = ''low'') (issues out))) \<and>
     metadata out ''prompt_version'' = Some (Some ''v1.0'') \<and>
     metadata out ''llm_provider'' = Some (if llm_used (summary out) then Some provider else None)"
proof -
  obtain rule_issues where r: "run_all_rules (diff pr) = Inr rule_issues"
    using run_all_rules_eq [of "diff pr"] by blast
  from review_pr_eq [OF r, where use_llm = use_llm and w = w and provider = provider and model = model]
  obtain llm_issues used name where
    t: "(llm_issues, used, name) =
       (if use_llm
        then (case call_llm w pr provider model 30 of
                Inr found \<Rightarrow> (found, True, Some model)
              | Inl e \<Rightarrow> ([], False, None))
        else ([], False, None))"
    and e: "review_pr w pr use_llm provider model =
      Inr \<lparr>pr_number = PRDiff.pr_number pr,
         issues = rule_issues @ llm_issues,
         summary = \<lparr>total_issues = int (length (rule_issues @ llm_issues)),
                    high_severity = count_severity ''high'' (rule_issues @ llm_issues),
                    medium_severity = count_severity ''medium'' (rule_issues @ llm_issues),
                    low_severity = count_severity ''low'' (rule_issues @ llm_issues),
                    review_time_seconds = elapsed w,
                    llm_used = used,
                    model_name = name\<rparr>,
         metadata = [''prompt_version'' \<mapsto> Some PROMPT_VERSION,
                     ''llm_provider'' \<mapsto> (if used then Some provider else None)]\<rparr>"
    by blast
  define out where "out =
      \<lparr>pr_number = PRDiff.pr_number pr,
         issues = rule_issues @ llm_issues,
         summary = \<lparr>total_issues = int (length (rule_issues @ llm_issues)),
                    high_severity = count_severity ''high'' (rule_issues @ llm_issues),
                    medium_severity = count_severity ''medium'' (rule_issues @ llm_issues),
                    low_severity = count_severity ''low'' (rule_issues @ llm_issues),
                    review_time_seconds = elapsed w,
                    llm_used = used,
                    model_name = name\<rparr>,
         metadata = [''prompt_version'' \<mapsto> Some PROMPT_VERSION,
                     ''llm_provider'' \<mapsto> (if used then Some provider else None)]\<rparr>"
  have o: "review_pr w pr use_llm provider model = Inr out"
    using e by (simp only: out_def)
  have li: "llm_issues = (if use_llm
                   then (case call_llm w pr provider model 30 of
                           Inr found \<Rightarrow> found | Inl e \<Rightarrow> [])
                   else [])"
    using t by (simp split: if_splits sum.splits)
  have us: "used = (use_llm \<and> (\<exists>found. call_llm w pr provider model 30 = Inr found))"
    using t by (simp split: if_splits sum.splits)
  have sels: "issues out = rule_issues @ llm_issues"
    "ReviewOutput.pr_number out = PRDiff.pr_number pr"
    "llm_used (summary out) = used"
    "total_issues (summary out) = int (length (issues out))"
    "high_severity (summary out) = int (length (filter (\<lambda>i. severity i = ''high'') (issues out)))"
    "medium_severity (summary out) = int (length (filter (\<lambda>i. severity i = ''medium'') (issues out)))"
    "low_severity (summary out) = int (length (filter (\<lambda>i. severity i = ''low'') (issues out)))"
    "metadata out ''prompt_version'' = Some (Some ''v1.0'')"
    "metadata out ''llm_provider'' = Some (if llm_used (summary out) then Some provider else None)"
    by (simp_all add: out_def count_severity_def PROMPT_VERSION_def)
  show ?thesis
    apply (rule exI [of _ out])
    apply (rule exI [of _ rule_issues])
    apply (rule exI [of _ llm_issues])
    using o r li us sels by (simp only: simp_thms)
qed

theorem review_output_shape_witness:
  "\<exists>out. review_pr sample_externals demo_pr True ''local'' ''llama'' = Inr out \<and>
     issues out =
       [rule_issue ''security'' ''high'' ''Use of eval() detected'' 1,
        rule_issue ''style'' ''low''
          ''Star import (import *) detected. Consider explicit imports.'' (9 / 10),
        sample_issue] \<and>
     llm_used (summary out) = True \<and>
     total_issues (summary out) = 3 \<and> high_severity (summary out) = 2 \<and>
     medium_severity (summary out) = 0 \<and> low_severity (summary out) = 1 \<and>
     metadata out ''prompt_version'' = Some (Some ''v1.0'') \<and>
     metadata out ''llm_provider'' = Some (Some ''local'')"
  using review_output_shape [of sample_externals demo_pr True "''local''" "''llama''"]
    demo_rule_issues local_reply
  by (auto simp: demo_pr_diff sample_issue_def)

subsection \<open>The demonstration diff\<close>

text \<open>
  C1. The diff of the demonstration endpoint holds a hardcoded \<open>SECRET_KEY\<close>, a call of
  \<open>eval(\<close>, a use of \<open>hashlib.md5\<close> and a wildcard import. With the LLM disabled,
  \<open>review_pr\<close> reports two issues for it, with \<open>high_severity = 1\<close>, \<open>low_severity = 1\<close> and
  \<open>llm_used = False\<close>: the table of \<open>app/rules.py\<close> has no pattern for \<open>SECRET_KEY\<close> and none
  for the hash, which the table of \<open>api.py\<close> has (\<open>api_demo_counts\<close>: three issues of high
  severity on the same diff).
\<close>

theorem demo_diff_review:
  "re_search True secret_key_pattern demo_diff \<and> re_search True eval_pattern demo_diff \<and>
   re_search True md5_pattern demo_diff \<and> re_search False star_import_pattern demo_diff \<and>
   (\<exists>out. review_pr w (pr\<lparr>diff := demo_diff\<rparr>) False provider model = Inr out \<and>
      issues out =
        [rule_issue ''security'' ''high'' ''Use of eval() detected'' 1,
         rule_issue ''style'' ''low''
           ''Star import (import *) detected. Consider explicit imports.'' (9 / 10)] \<and>
      high_severity (summary out) = 1 \<and> medium_severity (summary out) = 0 \<and>
      low_severity (summary out) = 1 \<and> llm_used (summary out) = False)"
proof -
  have r: "run_all_rules (diff (pr\<lparr>diff := demo_diff\<rparr>)) =
     Inr [rule_issue ''security'' ''high'' ''Use of eval() detected'' 1,
          rule_issue ''style'' ''low''
            ''Star import (import *) detected. Consider explicit imports.'' (9 / 10)]"
    using demo_rule_issues by simp
  from review_pr_eq [OF r, where use_llm = False and w = w and provider = provider and model = model]
  have "\<exists>out. review_pr w (pr\<lparr>diff := demo_diff\<rparr>) False provider model = Inr out \<and>
      issues out =
        [rule_issue ''security'' ''high'' ''Use of eval() detected'' 1,
         rule_issue ''style'' ''low''
           ''Star import (import *) detected. Consider explicit imports.'' (9 / 10)] \<and>
      high_severity (summary out) = 1 \<and> medium_severity (summary out) = 0 \<and>
      low_severity (summary out) = 1 \<and> llm_used (summary out) = False"
    by (auto simp: count_severity_def)
  with demo_diff_contents show ?thesis by blast
qed

section \<open>The tests of \<open>tests/test_rules.py\<close> on the model\<close>

text \<open>
  The inputs of the repository's tests of the rule engine, with the results that the tests
  assert; \<open>test_pr_size_large\<close> is run on 600 lines \<open>+x\<close>.
\<close>

lemma test_pr_size_small: "check_pr_size ''+line1\<newline>+line2\<newline>+line3'' 500 = Inr None"
  by code_simp

lemma test_pr_size_large:
  "check_pr_size (big_diff 600) 500 =
     Inr (Some (rule_issue ''pr_size'' ''medium''
                  ''PR has 600 lines changed. Consider splitting for easier review.'' 1))"
proof -
  have "str_nat 600 = ''600''" by code_simp
  then show ?thesis by (simp add: check_pr_size_eq lines_changed_big_diff)
qed

lemma test_security_eval:
  "check_security_patterns ''+result = eval(user_input)'' =
     Inr [rule_issue ''security'' ''high'' ''Use of eval() detected'' 1]"
  by code_simp

lemma test_security_hardcoded_password:
  "check_security_patterns ''+password = \"supersecret123\"'' =
     Inr [rule_issue ''security'' ''high'' ''Possible hardcoded password'' 1]"
  by code_simp

lemma test_security_api_key:
  "check_security_patterns ''+api_key = \"sk-1234567890abcdef\"'' =
     Inr [rule_issue ''security'' ''high'' ''Possible hardcoded API key'' 1]"
  by code_simp

lemma test_import_star:
  "check_import_quality ''+from module import *'' =
     Inr [rule_issue ''style'' ''low''
            ''Star import (import *) detected. Consider explicit imports.'' (9 / 10)]"
  by code_simp

lemma test_run_all_rules:
  "run_all_rules
     (''\<newline>+import eval\<newline>+password = \"secret123\"\<newline>'' @
      ''+from utils import *\<newline>+result = eval(user_input)\<newline>'') =
     Inr [rule_issue ''security'' ''high'' ''Use of eval() detected'' 1,
          rule_issue ''security'' ''high'' ''Possible hardcoded password'' 1,
          rule_issue ''style'' ''low''
            ''Star import (import *) detected. Consider explicit imports.'' (9 / 10)]"
  by code_simp

lemma test_clean_code:
  "run_all_rules
     (''\<newline>+def calculate_total(items):\<newline>'' @
      ''+    \"\"\"Calculate total price of items.\"\"\"\<newline>'' @
      ''+    return sum(item.price for item in items)\<newline>'') = Inr []"
  by code_simp

end
